theory Spec2Isabelle
  imports Main "HOL-Library.Word" "HOL-Library.AList"
begin

unbundle bit_operations_syntax

section \<open>Vsqlite3: a shallow embedding of \<^verbatim>\<open>Include/Vsqlite3/Vsqlite3.hpp\<close>\<close>

text \<open>
  The header wraps the SQLite3 C interface. The wrapper's own code is embedded function by
  function, under the names of the source. C++ exceptions are values of the type
  \<open>exn\<close>, a member function that mutates its object takes the object and returns the
  new one, and the primitives of the SQLite3 library (which is not part of the
  repository) are parameters of every definition that calls them.
\<close>

subsection \<open>Exceptions\<close>

type_synonym byte = "8 word"
type_synonym c_int = "32 word"

text \<open>
  \<^verbatim>\<open>class SqliteException : public std::runtime_error\<close> has the message of its base
  class and the field \<^verbatim>\<open>int m_extendedErrorCode\<close>.
\<close>

record SqliteException =
  what :: string
  m_extendedErrorCode :: c_int

text \<open>\<^verbatim>\<open>SqliteException(const std::string& message, const int extendedErrorCode)\<close>\<close>

definition SqliteException_ctor :: "string \<Rightarrow> c_int \<Rightarrow> SqliteException" where
  "SqliteException_ctor message extendedErrorCode =
     \<lparr>what = message, m_extendedErrorCode = extendedErrorCode\<rparr>"

definition GetExtendedErrorCode :: "SqliteException \<Rightarrow> c_int" where
  "GetExtendedErrorCode this = m_extendedErrorCode this"

definition GetPrimaryErrorCode :: "SqliteException \<Rightarrow> c_int" where
  "GetPrimaryErrorCode this = m_extendedErrorCode this AND 0xFF"

datatype exn = Sqlite SqliteException | invalid_argument string

text \<open>
  A call that may throw returns \<open>Inl\<close> of the exception or \<open>Inr\<close> of its value,
  next to the objects and the engine state as they are when it returns or throws.
\<close>

type_synonym 'a result = "exn + 'a"

subsection \<open>\<^verbatim>\<open>template <typename T, T InvalidHandleValue> class Handle\<close>\<close>

text \<open>
  \<^verbatim>\<open>std::function<void(T)>\<close> is \<open>None\<close> when empty; a release function acts on the
  state \<open>'w\<close> of the world outside the handle. The template parameter
  \<^verbatim>\<open>InvalidHandleValue\<close> is the first argument of every member function.
\<close>

record ('t, 'w) Handle =
  m_handle :: 't
  m_releaseFn :: "('t \<Rightarrow> 'w \<Rightarrow> 'w) option"

definition Handle_ctor :: "'t \<Rightarrow> ('t \<Rightarrow> 'w \<Rightarrow> 'w) option \<Rightarrow> ('t, 'w) Handle" where
  "Handle_ctor handle releaseFn = \<lparr>m_handle = handle, m_releaseFn = releaseFn\<rparr>"

definition Handle_default :: "'t \<Rightarrow> ('t, 'w) Handle" where
  "Handle_default InvalidHandleValue = Handle_ctor InvalidHandleValue None"

definition Get :: "('t, 'w) Handle \<Rightarrow> 't" where
  "Get this = m_handle this"

definition Handle_Reset :: "'t \<Rightarrow> ('t, 'w) Handle \<Rightarrow> ('t, 'w) Handle" where
  "Handle_Reset InvalidHandleValue this = this\<lparr>m_handle := InvalidHandleValue, m_releaseFn := None\<rparr>"

definition Release :: "'t \<Rightarrow> ('t, 'w) Handle \<Rightarrow> 'w \<Rightarrow> bool \<times> ('t, 'w) Handle \<times> 'w" where
  "Release InvalidHandleValue this w =
     (if m_handle this \<noteq> InvalidHandleValue then
        (case m_releaseFn this of
           Some releaseFn \<Rightarrow> (True, Handle_Reset InvalidHandleValue this, releaseFn (m_handle this) w)
         | None \<Rightarrow> (False, this, w))
      else (False, this, w))"

text \<open>\<^verbatim>\<open>~Handle()\<close>: \<^verbatim>\<open>if (!this->Release()) this->Reset();\<close>\<close>

definition Handle_dtor :: "'t \<Rightarrow> ('t, 'w) Handle \<Rightarrow> 'w \<Rightarrow> ('t, 'w) Handle \<times> 'w" where
  "Handle_dtor InvalidHandleValue this w =
     (case Release InvalidHandleValue this w of
        (released, this', w') \<Rightarrow>
          if \<not> released then (Handle_Reset InvalidHandleValue this', w') else (this', w'))"

text \<open>
  The body of \<^verbatim>\<open>operator= (Handle&& other)\<close> under its guard
  \<^verbatim>\<open>this != &other\<close>, for two distinct objects: it returns this object, the source
  and the world.
\<close>

definition Handle_assign_from ::
  "'t \<Rightarrow> ('t, 'w) Handle \<Rightarrow> ('t, 'w) Handle \<Rightarrow> 'w \<Rightarrow> ('t, 'w) Handle \<times> ('t, 'w) Handle \<times> 'w" where
  "Handle_assign_from InvalidHandleValue this other w =
     (case Release InvalidHandleValue this w of
        (_, this1, w1) \<Rightarrow>
          (this1\<lparr>m_handle := m_handle other, m_releaseFn := m_releaseFn other\<rparr>,
           Handle_Reset InvalidHandleValue other, w1))"

text \<open>
  The guard compares addresses, so the operator is embedded over a store of handle
  objects: the list \<open>hs\<close>, an object's address being its index.
\<close>

definition Handle_move_assign ::
  "'t \<Rightarrow> nat \<Rightarrow> nat \<Rightarrow> ('t, 'w) Handle list \<Rightarrow> 'w \<Rightarrow> ('t, 'w) Handle list \<times> 'w" where
  "Handle_move_assign InvalidHandleValue this other hs w =
     (if this \<noteq> other then
        (case Handle_assign_from InvalidHandleValue (hs ! this) (hs ! other) w of
           (this', other', w') \<Rightarrow> (hs[this := this', other := other'], w'))
      else (hs, w))"

text \<open>\<^verbatim>\<open>Handle(Handle&& other) noexcept : Handle() { this->operator= (std::move(other)); }\<close>\<close>

definition Handle_move_ctor ::
  "'t \<Rightarrow> ('t, 'w) Handle \<Rightarrow> 'w \<Rightarrow> ('t, 'w) Handle \<times> ('t, 'w) Handle \<times> 'w" where
  "Handle_move_ctor InvalidHandleValue other w = Handle_assign_from InvalidHandleValue (Handle_default InvalidHandleValue) other w"

text \<open>The same operations on the store, by address.\<close>

definition Handle_Release_at ::
  "'t \<Rightarrow> nat \<Rightarrow> ('t, 'w) Handle list \<Rightarrow> 'w \<Rightarrow> bool \<times> ('t, 'w) Handle list \<times> 'w" where
  "Handle_Release_at InvalidHandleValue a hs w =
     (case Release InvalidHandleValue (hs ! a) w of (r, h, w') \<Rightarrow> (r, hs[a := h], w'))"

definition Handle_dtor_at ::
  "'t \<Rightarrow> nat \<Rightarrow> ('t, 'w) Handle list \<Rightarrow> 'w \<Rightarrow> ('t, 'w) Handle list \<times> 'w" where
  "Handle_dtor_at InvalidHandleValue a hs w =
     (case Handle_dtor InvalidHandleValue (hs ! a) w of (h, w') \<Rightarrow> (hs[a := h], w'))"

subsection \<open>The SQLite3 C interface\<close>

text \<open>
  The library is outside the repository: its primitives are the fields of a record, a
  parameter \<open>eng\<close> of the wrapper's functions, over the engine's state \<open>'w\<close>.
  \<^verbatim>\<open>sqlite3*\<close> and \<^verbatim>\<open>sqlite3_stmt*\<close> are addresses (\<open>0\<close> is \<^verbatim>\<open>nullptr\<close>); a
  \<^verbatim>\<open>const char*\<close> or \<^verbatim>\<open>const void*\<close> is the list of the characters or bytes of
  memory from the address to the end of its object. Status codes, parameter indices and
  column numbers are \<open>int\<close>: no arithmetic on them can overflow here. The result of
  \<^verbatim>\<open>sqlite3_column_bytes\<close>, a number of bytes and never negative, is a \<open>nat\<close>: the
  conversions of it to \<^verbatim>\<open>std::size_t\<close> in the column rules change nothing.
\<close>

type_synonym ptr = nat

record 'w sqlite3 =
  sqlite3_prepare_v2 :: "ptr \<Rightarrow> string \<Rightarrow> int \<Rightarrow> 'w \<Rightarrow> (int \<times> ptr) \<times> 'w"
  sqlite3_finalize :: "ptr \<Rightarrow> 'w \<Rightarrow> 'w"
  sqlite3_reset :: "ptr \<Rightarrow> 'w \<Rightarrow> int \<times> 'w"
  sqlite3_step :: "ptr \<Rightarrow> 'w \<Rightarrow> int \<times> 'w"
  sqlite3_clear_bindings :: "ptr \<Rightarrow> 'w \<Rightarrow> int \<times> 'w"
  sqlite3_bind_null :: "ptr \<Rightarrow> int \<Rightarrow> 'w \<Rightarrow> int \<times> 'w"
  sqlite3_bind_int :: "ptr \<Rightarrow> int \<Rightarrow> 32 word \<Rightarrow> 'w \<Rightarrow> int \<times> 'w"
  sqlite3_bind_int64 :: "ptr \<Rightarrow> int \<Rightarrow> 64 word \<Rightarrow> 'w \<Rightarrow> int \<times> 'w"
  sqlite3_bind_text :: "ptr \<Rightarrow> int \<Rightarrow> string \<Rightarrow> int \<Rightarrow> 'w \<Rightarrow> int \<times> 'w"
  sqlite3_bind_blob64 :: "ptr \<Rightarrow> int \<Rightarrow> byte list \<Rightarrow> nat \<Rightarrow> 'w \<Rightarrow> int \<times> 'w"
  sqlite3_column_type :: "ptr \<Rightarrow> int \<Rightarrow> 'w \<Rightarrow> int"
  sqlite3_column_int :: "ptr \<Rightarrow> int \<Rightarrow> 'w \<Rightarrow> 32 word"
  sqlite3_column_int64 :: "ptr \<Rightarrow> int \<Rightarrow> 'w \<Rightarrow> 64 word"
  sqlite3_column_bytes :: "ptr \<Rightarrow> int \<Rightarrow> 'w \<Rightarrow> nat"
  sqlite3_column_text :: "ptr \<Rightarrow> int \<Rightarrow> 'w \<Rightarrow> string"
  sqlite3_column_blob :: "ptr \<Rightarrow> int \<Rightarrow> 'w \<Rightarrow> byte list"
  sqlite3_db_handle :: "ptr \<Rightarrow> 'w \<Rightarrow> ptr"
  sqlite3_errmsg :: "ptr \<Rightarrow> 'w \<Rightarrow> string"
  sqlite3_extended_errcode :: "ptr \<Rightarrow> 'w \<Rightarrow> c_int"


text \<open>The constants of \<^verbatim>\<open>sqlite3.h\<close> that the header uses.\<close>

definition SQLITE_OK :: int where "SQLITE_OK = 0"
definition SQLITE_ROW :: int where "SQLITE_ROW = 100"
definition SQLITE_DONE :: int where "SQLITE_DONE = 101"
definition SQLITE_NULL :: int where "SQLITE_NULL = 5"

text \<open>
  \<^verbatim>\<open>SqliteException(sqlite3* const pDb)\<close> and
  \<^verbatim>\<open>SqliteException(sqlite3_stmt* const pStmt)\<close>: the message and the extended code
  of the connection, a statement's through \<^verbatim>\<open>sqlite3_db_handle\<close>.
\<close>

definition SqliteException_db :: "'w sqlite3 \<Rightarrow> ptr \<Rightarrow> 'w \<Rightarrow> SqliteException" where
  "SqliteException_db eng pDb w =
     SqliteException_ctor (sqlite3_errmsg eng pDb w) (sqlite3_extended_errcode eng pDb w)"

definition SqliteException_stmt :: "'w sqlite3 \<Rightarrow> ptr \<Rightarrow> 'w \<Rightarrow> SqliteException" where
  "SqliteException_stmt eng pStmt w = SqliteException_db eng (sqlite3_db_handle eng pStmt w) w"

subsection \<open>\<^verbatim>\<open>template <typename T> struct Binding\<close>: the bind rules\<close>

text \<open>
  An argument of \<^verbatim>\<open>Bind\<close> is a value of one of the types with a
  \<^verbatim>\<open>Binding<T>::Bind\<close>; the specialization the compiler selects is the constructor.
  A \<^verbatim>\<open>const char*\<close> is the memory it points to; a \<^verbatim>\<open>char[Len]\<close> is its
  \<open>Len\<close> bytes; a \<^verbatim>\<open>std::string_view\<close> is the memory from \<^verbatim>\<open>data()\<close> on and its
  \<^verbatim>\<open>size()\<close>, its characters being the first \<open>size()\<close> bytes of that memory; a
  \<^verbatim>\<open>std::string\<close> is its characters, \<^verbatim>\<open>c_str()\<close> pointing to them followed by
  a zero byte. Of the integral types, \<^verbatim>\<open>std::int32_t\<close> stands for the branch
  \<^verbatim>\<open>sizeof(T) < sizeof(std::int64_t)\<close> and \<^verbatim>\<open>std::int64_t\<close> for the other; the
  floating-point specialization is left out.
\<close>

datatype arg =
    Nullptr
  | Nullopt
  | Optional "arg option"
  | CharPtr string
  | CharArray string
  | StringView string nat
  | String string
  | Int32 "32 word"
  | Int64 "64 word"
  | Bool bool
  | ByteSpan "byte list"
  | ByteVector "byte list"

text \<open>The characters of a text argument, as the C++ object holds them.\<close>

definition view_chars :: "string \<Rightarrow> nat \<Rightarrow> string" where
  "view_chars mem n = take n mem"

definition c_str :: "string \<Rightarrow> string" where
  "c_str s = s @ [CHR 0x00]"

definition Binding_nullptr_Bind :: "'w sqlite3 \<Rightarrow> ptr \<Rightarrow> int \<Rightarrow> 'w \<Rightarrow> int \<times> 'w" where
  "Binding_nullptr_Bind eng pStmt index w = sqlite3_bind_null eng pStmt index w"

definition Binding_nullopt_Bind :: "'w sqlite3 \<Rightarrow> ptr \<Rightarrow> int \<Rightarrow> 'w \<Rightarrow> int \<times> 'w" where
  "Binding_nullopt_Bind eng pStmt index w = Binding_nullptr_Bind eng pStmt index w"

definition Binding_char_ptr_Bind ::
  "'w sqlite3 \<Rightarrow> ptr \<Rightarrow> int \<Rightarrow> string \<Rightarrow> 'w \<Rightarrow> int \<times> 'w" where
  "Binding_char_ptr_Bind eng pStmt index arg w = sqlite3_bind_text eng pStmt index arg (- 1) w"

text \<open>
  \<^verbatim>\<open>static_cast<int>(Len - 1)\<close>: the subtraction is that of \<^verbatim>\<open>std::size_t\<close>, and the
  cast keeps its low 32 bits.
\<close>

definition Binding_char_array_Bind ::
  "'w sqlite3 \<Rightarrow> ptr \<Rightarrow> int \<Rightarrow> string \<Rightarrow> 'w \<Rightarrow> int \<times> 'w" where
  "Binding_char_array_Bind eng pStmt index arg w =
     sqlite3_bind_text eng pStmt index arg (sint (word_of_nat (length arg) - 1 :: 32 word)) w"

text \<open>\<^verbatim>\<open>return Binding<const char*>::Bind(pStmt, index, arg.data());\<close>\<close>

definition Binding_string_view_Bind ::
  "'w sqlite3 \<Rightarrow> ptr \<Rightarrow> int \<Rightarrow> string \<Rightarrow> nat \<Rightarrow> 'w \<Rightarrow> int \<times> 'w" where
  "Binding_string_view_Bind eng pStmt index data n w =
     Binding_char_ptr_Bind eng pStmt index data w"

text \<open>\<^verbatim>\<open>return Binding<const char*>::Bind(pStmt, index, arg.c_str());\<close>\<close>

definition Binding_string_Bind ::
  "'w sqlite3 \<Rightarrow> ptr \<Rightarrow> int \<Rightarrow> string \<Rightarrow> 'w \<Rightarrow> int \<times> 'w" where
  "Binding_string_Bind eng pStmt index arg w =
     Binding_char_ptr_Bind eng pStmt index (c_str arg) w"

definition Binding_int32_Bind ::
  "'w sqlite3 \<Rightarrow> ptr \<Rightarrow> int \<Rightarrow> 32 word \<Rightarrow> 'w \<Rightarrow> int \<times> 'w" where
  "Binding_int32_Bind eng pStmt index arg w = sqlite3_bind_int eng pStmt index arg w"

definition Binding_int64_Bind ::
  "'w sqlite3 \<Rightarrow> ptr \<Rightarrow> int \<Rightarrow> 64 word \<Rightarrow> 'w \<Rightarrow> int \<times> 'w" where
  "Binding_int64_Bind eng pStmt index arg w = sqlite3_bind_int64 eng pStmt index arg w"

definition Binding_bool_Bind :: "'w sqlite3 \<Rightarrow> ptr \<Rightarrow> int \<Rightarrow> bool \<Rightarrow> 'w \<Rightarrow> int \<times> 'w" where
  "Binding_bool_Bind eng pStmt index arg w =
     Binding_int32_Bind eng pStmt index (if arg then 1 else 0) w"

definition Binding_span_Bind ::
  "'w sqlite3 \<Rightarrow> ptr \<Rightarrow> int \<Rightarrow> byte list \<Rightarrow> 'w \<Rightarrow> int \<times> 'w" where
  "Binding_span_Bind eng pStmt index arg w =
     sqlite3_bind_blob64 eng pStmt index arg (length arg) w"

definition Binding_vector_Bind ::
  "'w sqlite3 \<Rightarrow> ptr \<Rightarrow> int \<Rightarrow> byte list \<Rightarrow> 'w \<Rightarrow> int \<times> 'w" where
  "Binding_vector_Bind eng pStmt index arg w = Binding_span_Bind eng pStmt index arg w"

text \<open>
  \<^verbatim>\<open>Binding<T>::Bind\<close>, the specialization chosen by the argument's type.
  \<^verbatim>\<open>Binding<std::optional<T>>::Bind\<close> delegates to \<^verbatim>\<open>Binding<T>\<close> when the optional
  has a value and to \<^verbatim>\<open>Binding<std::nullptr_t>\<close> otherwise.
\<close>

fun Binding_Bind :: "'w sqlite3 \<Rightarrow> ptr \<Rightarrow> int \<Rightarrow> arg \<Rightarrow> 'w \<Rightarrow> int \<times> 'w" where
  "Binding_Bind eng pStmt index Nullptr w = Binding_nullptr_Bind eng pStmt index w"
| "Binding_Bind eng pStmt index Nullopt w = Binding_nullopt_Bind eng pStmt index w"
| "Binding_Bind eng pStmt index (Optional (Some v)) w = Binding_Bind eng pStmt index v w"
| "Binding_Bind eng pStmt index (Optional None) w = Binding_nullptr_Bind eng pStmt index w"
| "Binding_Bind eng pStmt index (CharPtr p) w = Binding_char_ptr_Bind eng pStmt index p w"
| "Binding_Bind eng pStmt index (CharArray a) w = Binding_char_array_Bind eng pStmt index a w"
| "Binding_Bind eng pStmt index (StringView d n) w =
     Binding_string_view_Bind eng pStmt index d n w"
| "Binding_Bind eng pStmt index (String s) w = Binding_string_Bind eng pStmt index s w"
| "Binding_Bind eng pStmt index (Int32 x) w = Binding_int32_Bind eng pStmt index x w"
| "Binding_Bind eng pStmt index (Int64 x) w = Binding_int64_Bind eng pStmt index x w"
| "Binding_Bind eng pStmt index (Bool b) w = Binding_bool_Bind eng pStmt index b w"
| "Binding_Bind eng pStmt index (ByteSpan bs) w = Binding_span_Bind eng pStmt index bs w"
| "Binding_Bind eng pStmt index (ByteVector bs) w = Binding_vector_Bind eng pStmt index bs w"

subsection \<open>\<^verbatim>\<open>Binding<T>::Column\<close>: the column rules\<close>

text \<open>
  An output argument is a reference to an object of one of the types with a
  \<^verbatim>\<open>Binding<T>::Column\<close>. Each rule embedded here assigns the whole object (the rule
  for \<^verbatim>\<open>std::span<std::uint8_t>\<close>, which copies into a buffer of fixed size, is left
  out), so the value written depends on the object's type only, and the rules are a
  function of the type. \<^verbatim>\<open>Binding<std::optional<T>>::Column\<close> applies the rule of
  \<^verbatim>\<open>T\<close> to the object that \<^verbatim>\<open>arg.emplace()\<close> constructs.
\<close>

datatype out_type = T_Int32 | T_Int64 | T_Bool | T_String | T_ByteVector | T_Optional out_type

datatype out_arg =
    O_Int32 "32 word"
  | O_Int64 "64 word"
  | O_Bool bool
  | O_String string
  | O_ByteVector "byte list"
  | O_Optional out_type "out_arg option"

fun type_of :: "out_arg \<Rightarrow> out_type" where
  "type_of (O_Int32 _) = T_Int32"
| "type_of (O_Int64 _) = T_Int64"
| "type_of (O_Bool _) = T_Bool"
| "type_of (O_String _) = T_String"
| "type_of (O_ByteVector _) = T_ByteVector"
| "type_of (O_Optional t _) = T_Optional t"

definition Binding_int32_Column :: "'w sqlite3 \<Rightarrow> ptr \<Rightarrow> int \<Rightarrow> 'w \<Rightarrow> 32 word" where
  "Binding_int32_Column eng pStmt column w = sqlite3_column_int eng pStmt column w"

definition Binding_int64_Column :: "'w sqlite3 \<Rightarrow> ptr \<Rightarrow> int \<Rightarrow> 'w \<Rightarrow> 64 word" where
  "Binding_int64_Column eng pStmt column w = sqlite3_column_int64 eng pStmt column w"

definition Binding_bool_Column :: "'w sqlite3 \<Rightarrow> ptr \<Rightarrow> int \<Rightarrow> 'w \<Rightarrow> bool" where
  "Binding_bool_Column eng pStmt column w =
     (let val = Binding_int32_Column eng pStmt column w in val \<noteq> 0)"

definition Binding_string_Column :: "'w sqlite3 \<Rightarrow> ptr \<Rightarrow> int \<Rightarrow> 'w \<Rightarrow> string" where
  "Binding_string_Column eng pStmt column w =
     (let len = sqlite3_column_bytes eng pStmt column w;
          pText = sqlite3_column_text eng pStmt column w
      in take len pText)"

text \<open>
  \<^verbatim>\<open>arg.resize(len)\<close>, then the rule of the mutable span over the whole vector:
  \<^verbatim>\<open>std::memcpy\<close> of \<^verbatim>\<open>std::min(len, arg.size())\<close> bytes.
\<close>

definition Binding_vector_Column :: "'w sqlite3 \<Rightarrow> ptr \<Rightarrow> int \<Rightarrow> 'w \<Rightarrow> byte list" where
  "Binding_vector_Column eng pStmt column w =
     (let len = sqlite3_column_bytes eng pStmt column w;
          pData = sqlite3_column_blob eng pStmt column w
      in take (min len len) pData)"

fun Binding_Column_T :: "'w sqlite3 \<Rightarrow> ptr \<Rightarrow> int \<Rightarrow> out_type \<Rightarrow> 'w \<Rightarrow> out_arg" where
  "Binding_Column_T eng pStmt column T_Int32 w = O_Int32 (Binding_int32_Column eng pStmt column w)"
| "Binding_Column_T eng pStmt column T_Int64 w = O_Int64 (Binding_int64_Column eng pStmt column w)"
| "Binding_Column_T eng pStmt column T_Bool w = O_Bool (Binding_bool_Column eng pStmt column w)"
| "Binding_Column_T eng pStmt column T_String w =
     O_String (Binding_string_Column eng pStmt column w)"
| "Binding_Column_T eng pStmt column T_ByteVector w =
     O_ByteVector (Binding_vector_Column eng pStmt column w)"
| "Binding_Column_T eng pStmt column (T_Optional t) w =
     (if sqlite3_column_type eng pStmt column w = SQLITE_NULL then O_Optional t None
      else O_Optional t (Some (Binding_Column_T eng pStmt column t w)))"

definition Binding_Column :: "'w sqlite3 \<Rightarrow> ptr \<Rightarrow> int \<Rightarrow> out_arg \<Rightarrow> 'w \<Rightarrow> out_arg" where
  "Binding_Column eng pStmt column arg w = Binding_Column_T eng pStmt column (type_of arg) w"

subsection \<open>\<^verbatim>\<open>class Database\<close> and \<^verbatim>\<open>class Statement\<close>\<close>

record 'w Database =
  m_db :: "(ptr, 'w) Handle"

record 'w Statement =
  m_stmt :: "(ptr, 'w) Handle"
  m_canFetch :: bool

definition nullptr :: ptr where
  "nullptr = 0"

definition ConnectionHandle :: "'w Database \<Rightarrow> ptr" where
  "ConnectionHandle this = Get (m_db this)"

definition StatementHandle :: "'w Statement \<Rightarrow> ptr" where
  "StatementHandle this = Get (m_stmt this)"



text \<open>
  A member function of \<^verbatim>\<open>Statement\<close> takes the object and the engine's state and
  returns its result or the exception, the object and the engine's state.
  \<open>and_then f g\<close> is \<^verbatim>\<open>f(); g();\<close>: an exception of \<open>f\<close> skips \<open>g\<close>.
\<close>

type_synonym ('w, 'a) member = "'w Statement \<Rightarrow> 'w \<Rightarrow> 'a result \<times> 'w Statement \<times> 'w"

definition and_then :: "('w, unit) member \<Rightarrow> ('w, 'a) member \<Rightarrow> ('w, 'a) member" where
  "and_then f g this w =
     (case f this w of
        (Inl e, this', w') \<Rightarrow> (Inl e, this', w')
      | (Inr _, this', w') \<Rightarrow> g this' w')"

definition Reset :: "'w sqlite3 \<Rightarrow> ('w, unit) member" where
  "Reset eng this w =
     (case sqlite3_reset eng (StatementHandle this) w of
        (res, w') \<Rightarrow>
          if res \<noteq> SQLITE_OK then
            (Inl (Sqlite (SqliteException_stmt eng (StatementHandle this) w')), this, w')
          else (Inr (), this\<lparr>m_canFetch := False\<rparr>, w'))"

definition Step :: "'w sqlite3 \<Rightarrow> ('w, unit) member" where
  "Step eng this w =
     (case sqlite3_step eng (StatementHandle this) w of
        (res, w') \<Rightarrow>
          if res \<noteq> SQLITE_ROW \<and> res \<noteq> SQLITE_DONE then
            (Inl (Sqlite (SqliteException_stmt eng (StatementHandle this) w')), this, w')
          else (Inr (), this\<lparr>m_canFetch := (res = SQLITE_ROW)\<rparr>, w'))"

definition Unbind :: "'w sqlite3 \<Rightarrow> ('w, unit) member" where
  "Unbind eng this w =
     (case sqlite3_clear_bindings eng (StatementHandle this) w of
        (res, w') \<Rightarrow>
          if res \<noteq> SQLITE_OK then
            (Inl (Sqlite (SqliteException_stmt eng (StatementHandle this) w')), this, w')
          else (Inr (), this, w'))"

text \<open>\<^verbatim>\<open>template <int Index, typename T> Bind(const T& arg)\<close>\<close>

definition Bind1 :: "'w sqlite3 \<Rightarrow> int \<Rightarrow> arg \<Rightarrow> ('w, unit) member" where
  "Bind1 eng Index arg this w =
     (case Binding_Bind eng (StatementHandle this) Index arg w of
        (res, w') \<Rightarrow>
          if res \<noteq> SQLITE_OK then
            (Inl (Sqlite (SqliteException_stmt eng (StatementHandle this) w')), this, w')
          else (Inr (), this, w'))"

text \<open>
  \<^verbatim>\<open>template <int Index, typename T, typename... Args> Bind(const T& arg, const Args&... args)\<close>:
  the pack is the list \<open>args\<close>; with an empty pack the overload for one argument is the
  one selected.
\<close>

fun Bind_at :: "'w sqlite3 \<Rightarrow> int \<Rightarrow> arg \<Rightarrow> arg list \<Rightarrow> ('w, unit) member" where
  "Bind_at eng Index arg [] = Bind1 eng Index arg"
| "Bind_at eng Index arg (a # args) =
     and_then (Bind1 eng Index arg) (Bind_at eng (Index + 1) a args)"

definition Bind :: "'w sqlite3 \<Rightarrow> arg \<Rightarrow> arg list \<Rightarrow> ('w, unit) member" where
  "Bind eng arg args = Bind_at eng 1 arg args"

text \<open>
  \<^verbatim>\<open>Column\<close> writes its output arguments and changes nothing else: it returns their
  new values. \<^verbatim>\<open>Statement::Column()\<close> is the overload for no argument.
\<close>

definition Column1 :: "'w sqlite3 \<Rightarrow> int \<Rightarrow> out_arg \<Rightarrow> 'w Statement \<Rightarrow> 'w \<Rightarrow> out_arg" where
  "Column1 eng Col arg this w = Binding_Column eng (StatementHandle this) Col arg w"

fun Column_at ::
  "'w sqlite3 \<Rightarrow> int \<Rightarrow> out_arg \<Rightarrow> out_arg list \<Rightarrow> 'w Statement \<Rightarrow> 'w \<Rightarrow> out_arg list" where
  "Column_at eng Col arg [] this w = [Column1 eng Col arg this w]"
| "Column_at eng Col arg (a # args) this w =
     Column1 eng Col arg this w # Column_at eng (Col + 1) a args this w"

definition Column :: "'w sqlite3 \<Rightarrow> out_arg list \<Rightarrow> 'w Statement \<Rightarrow> 'w \<Rightarrow> out_arg list" where
  "Column eng args this w =
     (case args of [] \<Rightarrow> [] | arg # args' \<Rightarrow> Column_at eng 0 arg args' this w)"

definition Execute_void :: "'w sqlite3 \<Rightarrow> ('w, unit) member" where
  "Execute_void eng = and_then (Reset eng) (and_then (Unbind eng) (Step eng))"

definition Execute_args :: "'w sqlite3 \<Rightarrow> arg \<Rightarrow> arg list \<Rightarrow> ('w, unit) member" where
  "Execute_args eng arg args =
     and_then (Reset eng) (and_then (Unbind eng) (and_then (Bind eng arg args) (Step eng)))"

text \<open>
  A call \<^verbatim>\<open>Execute(args...)\<close>: overload resolution takes the non-template
  \<^verbatim>\<open>Execute(void)\<close> when there is no argument.
\<close>

definition Execute :: "'w sqlite3 \<Rightarrow> arg list \<Rightarrow> ('w, unit) member" where
  "Execute eng args =
     (case args of [] \<Rightarrow> Execute_void eng | arg # args' \<Rightarrow> Execute_args eng arg args')"

text \<open>\<^verbatim>\<open>Fetch\<close> returns, after its result, the values of its output arguments.\<close>

definition Fetch ::
  "'w sqlite3 \<Rightarrow> out_arg list \<Rightarrow> 'w Statement \<Rightarrow> 'w
     \<Rightarrow> bool result \<times> out_arg list \<times> 'w Statement \<times> 'w" where
  "Fetch eng args this w =
     (case (if \<not> m_canFetch this then Step eng this w else (Inr (), this, w)) of
        (Inl e, this1, w1) \<Rightarrow> (Inl e, args, this1, w1)
      | (Inr _, this1, w1) \<Rightarrow>
          if m_canFetch this1 then
            (Inr True, Column eng args this1 w1, this1\<lparr>m_canFetch := False\<rparr>, w1)
          else (Inr False, args, this1, w1))"



subsection \<open>Sequences of calls\<close>

text \<open>
  The client loop of the README, \<^verbatim>\<open>while (stmt.Fetch(id, username)) { ... }\<close>, calls
  \<^verbatim>\<open>Fetch\<close> again and again on the same output variables. \<open>Fetch_repeat eng n\<close> is
  \<open>n\<close> such calls in a row; it returns the result of each call with the values the
  output variables have after it.
\<close>

fun Fetch_repeat ::
  "'w sqlite3 \<Rightarrow> nat \<Rightarrow> out_arg list \<Rightarrow> 'w Statement \<Rightarrow> 'w
     \<Rightarrow> (bool result \<times> out_arg list) list \<times> 'w Statement \<times> 'w" where
  "Fetch_repeat eng 0 args this w = ([], this, w)"
| "Fetch_repeat eng (Suc n) args this w =
     (case Fetch eng args this w of
        (r, args', this', w') \<Rightarrow>
          (case Fetch_repeat eng n args' this' w' of
             (rs, this'', w'') \<Rightarrow> ((r, args') # rs, this'', w'')))"

text \<open>The engine's state after \<open>k\<close> calls of \<^verbatim>\<open>sqlite3_step\<close> on a statement.\<close>

fun steps :: "'w sqlite3 \<Rightarrow> ptr \<Rightarrow> nat \<Rightarrow> 'w \<Rightarrow> 'w" where
  "steps eng pStmt 0 w = w"
| "steps eng pStmt (Suc k) w = steps eng pStmt k (snd (sqlite3_step eng pStmt w))"

text \<open>
  The statement has \<open>n\<close> result rows left: the next \<open>n\<close> steps report a row and the
  one after them reports that the statement is done.
\<close>

fun rows_then_done :: "'w sqlite3 \<Rightarrow> ptr \<Rightarrow> nat \<Rightarrow> 'w \<Rightarrow> bool" where
  "rows_then_done eng pStmt 0 w = (fst (sqlite3_step eng pStmt w) = SQLITE_DONE)"
| "rows_then_done eng pStmt (Suc n) w =
     (fst (sqlite3_step eng pStmt w) = SQLITE_ROW
      \<and> rows_then_done eng pStmt n (snd (sqlite3_step eng pStmt w)))"

text \<open>
  A round trip through the interface: \<^verbatim>\<open>stmt.Execute(arg); stmt.Fetch(out);\<close>. It
  gives the value of \<open>out\<close> when both calls return and \<^verbatim>\<open>Fetch\<close> returns true.
\<close>

definition roundtrip ::
  "'w sqlite3 \<Rightarrow> arg \<Rightarrow> out_arg \<Rightarrow> 'w Statement \<Rightarrow> 'w \<Rightarrow> out_arg option" where
  "roundtrip eng arg out this w =
     (case Execute eng [arg] this w of
        (Inl e, this1, w1) \<Rightarrow> None
      | (Inr _, this1, w1) \<Rightarrow>
          (case Fetch eng [out] this1 w1 of
             (Inr True, outs, this2, w2) \<Rightarrow> Some (hd outs)
           | (_, outs, this2, w2) \<Rightarrow> None))"

text \<open>The object that \<^verbatim>\<open>arg.emplace()\<close> constructs: a value-initialized \<^verbatim>\<open>T\<close>.\<close>

fun value_init :: "out_type \<Rightarrow> out_arg" where
  "value_init T_Int32 = O_Int32 0"
| "value_init T_Int64 = O_Int64 0"
| "value_init T_Bool = O_Bool False"
| "value_init T_String = O_String []"
| "value_init T_ByteVector = O_ByteVector []"
| "value_init (T_Optional t) = O_Optional t None"

text \<open>
  Lifetimes of handles: a program is a list of operations on the objects of a store.
\<close>

datatype handle_op = Op_Release nat | Op_Move nat nat | Op_Destroy nat

fun handle_op_ok :: "nat \<Rightarrow> handle_op \<Rightarrow> bool" where
  "handle_op_ok n (Op_Release a) = (a < n)"
| "handle_op_ok n (Op_Move a b) = (a < n \<and> b < n)"
| "handle_op_ok n (Op_Destroy a) = (a < n)"

fun run_handle_op ::
  "'t \<Rightarrow> handle_op \<Rightarrow> ('t, 'w) Handle list \<times> 'w \<Rightarrow> ('t, 'w) Handle list \<times> 'w" where
  "run_handle_op InvalidHandleValue (Op_Release a) (hs, w) =
     snd (Handle_Release_at InvalidHandleValue a hs w)"
| "run_handle_op InvalidHandleValue (Op_Move a b) (hs, w) =
     Handle_move_assign InvalidHandleValue a b hs w"
| "run_handle_op InvalidHandleValue (Op_Destroy a) (hs, w) =
     Handle_dtor_at InvalidHandleValue a hs w"

definition run_handle_ops ::
  "'t \<Rightarrow> handle_op list \<Rightarrow> ('t, 'w) Handle list \<times> 'w \<Rightarrow> ('t, 'w) Handle list \<times> 'w" where
  "run_handle_ops InvalidHandleValue ops s = fold (run_handle_op InvalidHandleValue) ops s"

text \<open>Destroying every object of the store, as at the end of their scope.\<close>

definition destroy_all :: "'t \<Rightarrow> ('t, 'w) Handle list \<times> 'w \<Rightarrow> ('t, 'w) Handle list \<times> 'w" where
  "destroy_all InvalidHandleValue s =
     run_handle_ops InvalidHandleValue (map Op_Destroy [0..<length (fst s)]) s"

text \<open>
  A release function that records the value it is called with: the world is the list of
  the values released so far.
\<close>

definition record_release :: "'t \<Rightarrow> 't list \<Rightarrow> 't list" where
  "record_release v log = log @ [v]"

definition recording :: "('t, 't list) Handle \<Rightarrow> bool" where
  "recording h = (case m_releaseFn h of None \<Rightarrow> True | Some f \<Rightarrow> f = record_release)"

text \<open>The handles of the store that own the value \<open>v\<close>: they hold it with a release function.\<close>

definition owns :: "'t \<Rightarrow> ('t, 'w) Handle \<Rightarrow> bool" where
  "owns v h = (m_handle h = v \<and> m_releaseFn h \<noteq> None)"

definition owners :: "'t \<Rightarrow> ('t, 'w) Handle list \<Rightarrow> nat" where
  "owners v hs = length (filter (owns v) hs)"

subsection \<open>Two engines\<close>

text \<open>
  The theorems below hold for every engine. Their examples run on two instances of the
  interface. The first, \<open>ref_engine\<close>, follows the documentation of the SQLite3 C
  interface for the calls the header makes; it stands for no code of the repository.
  A value is NULL, an integer, a text or a blob. A prepared statement has its bound
  parameters, a program and a cursor; the program is either \<^verbatim>\<open>SELECT ?, ..., ?\<close>, whose
  one row is the bound parameters, or a fixed list of the results of its successive steps.
  Conversions between numbers and text in the column functions are not modelled.
\<close>

datatype sqlval = SqlNull | SqlInteger "64 word" | SqlText string | SqlBlob "byte list"

datatype step_result = Row "sqlval list" | Fail int

datatype program = Select_params | Results "step_result list"

record ref_stmt =
  n_params :: nat
  st_params :: "sqlval list"
  st_prog :: program
  st_pc :: nat
  st_halted :: bool
  st_row :: "sqlval list"
  st_rc :: int

record ref_world =
  w_catalog :: "(string \<times> ref_stmt) list"
  w_stmts :: "(ptr \<times> ref_stmt) list"
  w_errcode :: c_int
  w_errmsg :: string

definition SQLITE_ERROR :: int where "SQLITE_ERROR = 1"
definition SQLITE_MISUSE :: int where "SQLITE_MISUSE = 21"
definition SQLITE_RANGE :: int where "SQLITE_RANGE = 25"

definition ref_fail :: "int \<Rightarrow> ref_world \<Rightarrow> ref_world" where
  "ref_fail rc w = w\<lparr>w_errcode := word_of_int rc, w_errmsg := ''error''\<rparr>"

definition ref_ok :: "ref_world \<Rightarrow> ref_world" where
  "ref_ok w = w\<lparr>w_errcode := 0, w_errmsg := ''not an error''\<rparr>"

definition ref_put :: "ptr \<Rightarrow> ref_stmt \<Rightarrow> ref_world \<Rightarrow> ref_world" where
  "ref_put p st w = w\<lparr>w_stmts := AList.update p st (w_stmts w)\<rparr>"

text \<open>
  The text that \<^verbatim>\<open>sqlite3_bind_text(pStmt, i, z, n, SQLITE_TRANSIENT)\<close> copies: with a
  negative \<open>n\<close> the characters of \<open>z\<close> up to the first zero terminator, otherwise the
  first \<open>n\<close> characters.
\<close>

definition text_arg :: "string \<Rightarrow> int \<Rightarrow> string" where
  "text_arg z n = (if n < 0 then takeWhile (\<lambda>c. c \<noteq> CHR 0x00) z else take (nat n) z)"

text \<open>
  \<^verbatim>\<open>sqlite3_prepare_v2\<close> reads the query text by the same rule. The text compiles when
  the catalog knows it; the new statement gets a fresh address.
\<close>

definition ref_prepare :: "ptr \<Rightarrow> string \<Rightarrow> int \<Rightarrow> ref_world \<Rightarrow> (int \<times> ptr) \<times> ref_world" where
  "ref_prepare db zSql nByte w =
     (case map_of (w_catalog w) (text_arg zSql nByte) of
        None \<Rightarrow> ((SQLITE_ERROR, nullptr), ref_fail SQLITE_ERROR w)
      | Some st \<Rightarrow>
          (let p = Suc (fold max (map fst (w_stmts w)) 0)
           in ((SQLITE_OK, p), ref_ok (ref_put p st w))))"

definition ref_finalize :: "ptr \<Rightarrow> ref_world \<Rightarrow> ref_world" where
  "ref_finalize p w = w\<lparr>w_stmts := AList.delete p (w_stmts w)\<rparr>"

definition rewind :: "ref_stmt \<Rightarrow> ref_stmt" where
  "rewind st = st\<lparr>st_pc := 0, st_halted := False, st_row := [], st_rc := SQLITE_OK\<rparr>"

text \<open>
  \<^verbatim>\<open>sqlite3_reset\<close> puts the statement back to its start and keeps its bindings. When
  the most recent step of the statement failed, it returns that step's error code.
\<close>

definition ref_reset :: "ptr \<Rightarrow> ref_world \<Rightarrow> int \<times> ref_world" where
  "ref_reset p w =
     (case map_of (w_stmts w) p of
        None \<Rightarrow> (SQLITE_MISUSE, ref_fail SQLITE_MISUSE w)
      | Some st \<Rightarrow>
          if st_rc st = SQLITE_OK then (SQLITE_OK, ref_ok (ref_put p (rewind st) w))
          else (st_rc st, ref_fail (st_rc st) (ref_put p (rewind st) w)))"

definition next_result :: "ref_stmt \<Rightarrow> step_result option" where
  "next_result st =
     (case st_prog st of
        Select_params \<Rightarrow> if st_pc st = 0 then Some (Row (st_params st)) else None
      | Results rs \<Rightarrow> if st_pc st < length rs then Some (rs ! st_pc st) else None)"

text \<open>
  \<^verbatim>\<open>sqlite3_step\<close>. A statement whose last step reported that it was done, or failed,
  is halted; as the library has done since version 3.7.0 (unless it is compiled with
  \<^verbatim>\<open>SQLITE_OMIT_AUTORESET\<close>), a step on a halted statement first resets it and so
  runs the statement again from its first row.
\<close>

definition ref_step :: "ptr \<Rightarrow> ref_world \<Rightarrow> int \<times> ref_world" where
  "ref_step p w =
     (case map_of (w_stmts w) p of
        None \<Rightarrow> (SQLITE_MISUSE, ref_fail SQLITE_MISUSE w)
      | Some st \<Rightarrow>
          (let st0 = (if st_halted st then rewind st else st) in
           case next_result st0 of
             None \<Rightarrow>
               (SQLITE_DONE, ref_ok (ref_put p (st0\<lparr>st_halted := True, st_row := []\<rparr>) w))
           | Some (Row r) \<Rightarrow>
               (SQLITE_ROW, ref_ok (ref_put p (st0\<lparr>st_pc := Suc (st_pc st0), st_row := r\<rparr>) w))
           | Some (Fail rc) \<Rightarrow>
               (rc, ref_fail rc
                      (ref_put p (st0\<lparr>st_halted := True, st_row := [], st_rc := rc\<rparr>) w))))"

definition ref_clear_bindings :: "ptr \<Rightarrow> ref_world \<Rightarrow> int \<times> ref_world" where
  "ref_clear_bindings p w =
     (case map_of (w_stmts w) p of
        None \<Rightarrow> (SQLITE_MISUSE, ref_fail SQLITE_MISUSE w)
      | Some st \<Rightarrow>
          (SQLITE_OK, ref_put p (st\<lparr>st_params := replicate (n_params st) SqlNull\<rparr>) w))"

text \<open>
  The \<^verbatim>\<open>sqlite3_bind_*\<close> family: a statement that has been stepped and not reset
  refuses a binding, and so does an index outside \<open>1..n_params\<close>.
\<close>

definition ref_bind :: "ptr \<Rightarrow> int \<Rightarrow> sqlval \<Rightarrow> ref_world \<Rightarrow> int \<times> ref_world" where
  "ref_bind p i v w =
     (case map_of (w_stmts w) p of
        None \<Rightarrow> (SQLITE_MISUSE, ref_fail SQLITE_MISUSE w)
      | Some st \<Rightarrow>
          if st_pc st \<noteq> 0 then (SQLITE_MISUSE, ref_fail SQLITE_MISUSE w)
          else if st_halted st then (SQLITE_MISUSE, ref_fail SQLITE_MISUSE w)
          else if 1 \<le> i \<and> i \<le> int (n_params st) then
            (SQLITE_OK, ref_ok (ref_put p (st\<lparr>st_params := (st_params st)[nat (i - 1) := v]\<rparr>) w))
          else (SQLITE_RANGE, ref_fail SQLITE_RANGE w))"

definition ref_column :: "ptr \<Rightarrow> int \<Rightarrow> ref_world \<Rightarrow> sqlval" where
  "ref_column p c w =
     (case map_of (w_stmts w) p of
        None \<Rightarrow> SqlNull
      | Some st \<Rightarrow> if 0 \<le> c \<and> nat c < length (st_row st) then st_row st ! nat c else SqlNull)"

fun ref_type :: "sqlval \<Rightarrow> int" where
  "ref_type (SqlInteger _) = 1"
| "ref_type (SqlText _) = 3"
| "ref_type (SqlBlob _) = 4"
| "ref_type SqlNull = 5"

fun ref_int64 :: "sqlval \<Rightarrow> 64 word" where
  "ref_int64 (SqlInteger x) = x"
| "ref_int64 _ = 0"

fun ref_bytes :: "sqlval \<Rightarrow> nat" where
  "ref_bytes (SqlText t) = length t"
| "ref_bytes (SqlBlob b) = length b"
| "ref_bytes _ = 0"

fun ref_text :: "sqlval \<Rightarrow> string" where
  "ref_text (SqlText t) = t @ [CHR 0x00]"
| "ref_text _ = []"

fun ref_blob :: "sqlval \<Rightarrow> byte list" where
  "ref_blob (SqlBlob b) = b"
| "ref_blob _ = []"

definition ref_engine :: "ref_world sqlite3" where
  "ref_engine =
     \<lparr>sqlite3_prepare_v2 = ref_prepare,
      sqlite3_finalize = ref_finalize,
      sqlite3_reset = ref_reset,
      sqlite3_step = ref_step,
      sqlite3_clear_bindings = ref_clear_bindings,
      sqlite3_bind_null = (\<lambda>p i. ref_bind p i SqlNull),
      sqlite3_bind_int = (\<lambda>p i x. ref_bind p i (SqlInteger (scast x))),
      sqlite3_bind_int64 = (\<lambda>p i x. ref_bind p i (SqlInteger x)),
      sqlite3_bind_text = (\<lambda>p i z n. ref_bind p i (SqlText (text_arg z n))),
      sqlite3_bind_blob64 = (\<lambda>p i z n. ref_bind p i (SqlBlob (take n z))),
      sqlite3_column_type = (\<lambda>p c w. ref_type (ref_column p c w)),
      sqlite3_column_int = (\<lambda>p c w. ucast (ref_int64 (ref_column p c w))),
      sqlite3_column_int64 = (\<lambda>p c w. ref_int64 (ref_column p c w)),
      sqlite3_column_bytes = (\<lambda>p c w. ref_bytes (ref_column p c w)),
      sqlite3_column_text = (\<lambda>p c w. ref_text (ref_column p c w)),
      sqlite3_column_blob = (\<lambda>p c w. ref_blob (ref_column p c w)),
      sqlite3_db_handle = (\<lambda>p w. 1),
      sqlite3_errmsg = (\<lambda>db w. w_errmsg w),
      sqlite3_extended_errcode = (\<lambda>db w. w_errcode w)\<rparr>"

text \<open>A statement as compiled, and a world with one statement at address 1.\<close>

definition compiled :: "nat \<Rightarrow> program \<Rightarrow> ref_stmt" where
  "compiled n pr =
     \<lparr>n_params = n, st_params = replicate n SqlNull, st_prog = pr, st_pc = 0,
      st_halted = False, st_row = [], st_rc = SQLITE_OK\<rparr>"

definition world_of :: "ref_stmt \<Rightarrow> ref_world" where
  "world_of st =
     \<lparr>w_catalog = [], w_stmts = [(1, st)], w_errcode = 0, w_errmsg = ''not an error''\<rparr>"

definition statement_at :: "ptr \<Rightarrow> bool \<Rightarrow> ref_world Statement" where
  "statement_at p canFetch =
     \<lparr>m_stmt = Handle_ctor p (Some ref_finalize), m_canFetch = canFetch\<rparr>"

definition the_stmt :: "ref_world \<Rightarrow> ref_stmt option" where
  "the_stmt w = map_of (w_stmts w) 1"

text \<open>
  The second engine, \<open>scripted_engine f\<close>, records every call made to it; its state is the
  list of the calls so far. The status a call returns is \<open>f\<close> of the call, so any call
  can be made to fail. \<^verbatim>\<open>sqlite3_prepare_v2\<close> gives the statement at address 1 when
  it succeeds and \<^verbatim>\<open>nullptr\<close> when it fails.
\<close>

datatype call =
    Call_prepare_v2 ptr string int
  | Call_finalize ptr
  | Call_reset ptr
  | Call_step ptr
  | Call_clear_bindings ptr
  | Call_bind_null ptr int
  | Call_bind_int ptr int "32 word"
  | Call_bind_int64 ptr int "64 word"
  | Call_bind_text ptr int string int
  | Call_bind_blob64 ptr int "byte list" nat






definition scripted_database :: "ptr \<Rightarrow> call list Database" where
  "scripted_database p = \<lparr>m_db = Handle_ctor p None\<rparr>"

subsection \<open>What an execution is expected to do\<close>







text \<open>The bound parameters of the statement at an address, when there is one.\<close>

definition params_at :: "ptr \<Rightarrow> ref_world \<Rightarrow> sqlval list option" where
  "params_at p w = map_option st_params (map_of (w_stmts w) p)"


subsection \<open>Observations and examples\<close>


text \<open>
  Statements of the first engine: one whose only step fails, and one whose first step
  gives a row and whose second step fails, with the two calls of \<^verbatim>\<open>Step\<close> on it.
\<close>

definition failing :: ref_stmt where
  "failing = compiled 0 (Results [Fail 1])"

definition flaky :: ref_stmt where
  "flaky = compiled 0 (Results [Row [SqlInteger 1], Fail 1])"

definition flaky_first where
  "flaky_first = Step ref_engine (statement_at 1 False) (world_of flaky)"

definition flaky_second where
  "flaky_second = Step ref_engine (fst (snd flaky_first)) (snd (snd flaky_first))"

text \<open>Statements of the first engine with a result set of one row and of two rows.\<close>

definition one_row :: ref_stmt where
  "one_row = compiled 0 (Results [Row [SqlInteger 7]])"

definition two_rows :: ref_stmt where
  "two_rows = compiled 0 (Results [Row [SqlInteger 7], Row [SqlInteger 8]])"

text \<open>
  The engine's state in which \<^verbatim>\<open>Fetch\<close> extracts its row, when it returns true: the
  state it is called in when a row is available, the state after its step otherwise.
\<close>

definition row_world :: "'w sqlite3 \<Rightarrow> 'w Statement \<Rightarrow> 'w \<Rightarrow> 'w option" where
  "row_world eng this w =
     (if m_canFetch this then Some w
      else (case Step eng this w of
              (Inl e, this1, w1) \<Rightarrow> None
            | (Inr _, this1, w1) \<Rightarrow> if m_canFetch this1 then Some w1 else None))"

text \<open>The engine's state in which the \<^verbatim>\<open>Fetch\<close> of a round trip extracts its row.\<close>

definition roundtrip_world :: "'w sqlite3 \<Rightarrow> arg \<Rightarrow> 'w Statement \<Rightarrow> 'w \<Rightarrow> 'w option" where
  "roundtrip_world eng arg this w =
     (case Execute eng [arg] this w of
        (Inl e, this1, w1) \<Rightarrow> None
      | (Inr _, this1, w1) \<Rightarrow> row_world eng this1 w1)"

text \<open>
  The statement \<^verbatim>\<open>SELECT ?\<close> of the first engine, and the parameters it holds after
  one argument is bound at position 1.
\<close>

definition echo1 :: ref_stmt where
  "echo1 = compiled 1 Select_params"

definition bound_params :: "arg \<Rightarrow> sqlval list option" where
  "bound_params a =
     map_option st_params (the_stmt (snd (Binding_Bind ref_engine 1 1 a (world_of echo1))))"

definition owns_count :: "'t \<Rightarrow> ('t, 'w) Handle \<Rightarrow> nat" where
  "owns_count v h = (if owns v h then 1 else 0)"

text \<open>
  Two handles over the sentinel \<open>0\<close>, the first owning the value \<open>5\<close>, and a program
  that moves the first into the second, releases the second twice and moves it back.
\<close>

definition two_handles :: "(nat, nat list) Handle list" where
  "two_handles = [Handle_ctor 5 (Some record_release), Handle_default 0]"

definition handle_program :: "handle_op list" where
  "handle_program = [Op_Move 1 0, Op_Release 1, Op_Release 1, Op_Move 0 1]"

text \<open>
  \<^verbatim>\<open>Fetch\<close> into one 64-bit integer on the statement whose second step fails: after
  its first \<^verbatim>\<open>Step\<close>, which gave a row, and after its second, which raised.
\<close>

definition pending_fetch where
  "pending_fetch = Fetch ref_engine [O_Int64 5] (fst (snd flaky_first)) (snd (snd flaky_first))"

definition stale_fetch where
  "stale_fetch = Fetch ref_engine [O_Int64 5] (fst (snd flaky_second)) (snd (snd flaky_second))"





section \<open>Properties\<close>

subsection \<open>Error codes\<close>

lemma and_255_take_bit: "(w :: c_int) AND 0xFF = take_bit 8 w"
  by (simp add: take_bit_eq_mask mask_eq_exp_minus_1)

lemma and_255_uint: "uint ((w :: c_int) AND 0xFF) = uint w mod 256"
proof -
  have "uint (take_bit 8 w) = take_bit 8 (uint w)"
    by (rule unsigned_take_bit_eq)
  then show ?thesis
    by (simp only: and_255_take_bit) (simp add: take_bit_eq_mod)
qed

lemma sint_small: "uint (p :: c_int) < 256 \<Longrightarrow> sint p = uint p"
proof -
  assume a: "uint p < 256"
  have "- (2 ^ 31) \<le> uint p" by (rule order_trans [of _ 0]) simp_all
  moreover have "uint p < 2 ^ 31" using a by simp
  ultimately have "signed_take_bit 31 (uint p) = uint p"
    by (rule signed_take_bit_int_eq_self)
  then show ?thesis by (simp add: sint_uint)
qed

lemma sint_mod_256: "sint (code :: c_int) mod 256 = uint code mod 256"
proof -
  have "take_bit 8 (sint code) = take_bit 8 (take_bit 32 (sint code))" by simp
  also have "take_bit 32 (sint code) = uint code" by (simp add: uint_sint)
  finally show ?thesis by (simp add: take_bit_eq_mod)
qed

text \<open>
  Claim C9. A failure object constructed with an extended error code exposes that code
  unchanged, and its primary error code is the extended code bitwise-and 0xFF: the low
  byte, that is the extended code modulo 256, a value from 0 to 255 also when the
  extended code is negative.
\<close>

theorem C9_primary_error_code_low_byte:
  "GetExtendedErrorCode (SqliteException_ctor msg code) = code
   \<and> GetPrimaryErrorCode (SqliteException_ctor msg code) = code AND 0xFF
   \<and> sint (GetPrimaryErrorCode (SqliteException_ctor msg code)) = sint code mod 256"
proof -
  have lt: "uint (code AND 0xFF) < 256"
    by (simp add: and_255_uint)
  have "sint (code AND 0xFF) = uint code mod 256"
    using sint_small [OF lt] by (simp add: and_255_uint)
  then have "sint (code AND 0xFF) = sint code mod 256"
    by (simp add: sint_mod_256)
  then show ?thesis
    by (simp add: GetExtendedErrorCode_def GetPrimaryErrorCode_def SqliteException_ctor_def)
qed

subsection \<open>Stepping and fetching\<close>

lemma StatementHandle_canFetch [simp]:
  "StatementHandle (this\<lparr>m_canFetch := b\<rparr>) = StatementHandle this"
  by (simp add: StatementHandle_def)

lemma Step_cases:
  "Step eng this w =
     (case sqlite3_step eng (StatementHandle this) w of
        (res, w') \<Rightarrow>
          if res = SQLITE_ROW then (Inr (), this\<lparr>m_canFetch := True\<rparr>, w')
          else if res = SQLITE_DONE then (Inr (), this\<lparr>m_canFetch := False\<rparr>, w')
          else (Inl (Sqlite (SqliteException_stmt eng (StatementHandle this) w')), this, w'))"
  by (simp add: Step_def SQLITE_ROW_def SQLITE_DONE_def split: prod.splits)

lemma Column1_canFetch [simp]:
  "Column1 eng c a (this\<lparr>m_canFetch := b\<rparr>) w = Column1 eng c a this w"
  by (simp add: Column1_def)

lemma Column_at_canFetch [simp]:
  "Column_at eng c a args (this\<lparr>m_canFetch := b\<rparr>) w = Column_at eng c a args this w"
  by (induction args arbitrary: c a) simp_all

lemma Column_canFetch [simp]:
  "Column eng args (this\<lparr>m_canFetch := b\<rparr>) w = Column eng args this w"
  by (simp add: Column_def split: list.splits)

lemma Column_at_positions:
  "Column_at eng (int k) a args this w =
     map2 (\<lambda>i x. Binding_Column eng (StatementHandle this) (int i) x w)
       [k..<k + Suc (length args)] (a # args)"
proof (induction args arbitrary: k a)
  case Nil
  then show ?case by (simp add: Column1_def)
next
  case (Cons b args)
  have "Column_at eng (int k + 1) b args this w =
      map2 (\<lambda>i x. Binding_Column eng (StatementHandle this) (int i) x w)
       [Suc k..<Suc k + Suc (length args)] (b # args)"
    using Cons.IH [of "Suc k" b] by (simp add: add.commute)
  then show ?case
    by (simp add: Column1_def upt_conv_Cons del: upt_Suc)
qed

lemma Column_positions:
  "Column eng args this w =
     map2 (\<lambda>i a. Binding_Column eng (StatementHandle this) (int i) a w) [0..<length args] args"
proof (cases args)
  case Nil
  then show ?thesis by (simp add: Column_def)
next
  case (Cons a as)
  then show ?thesis
    using Column_at_positions [of eng 0 a as this w] by (simp add: Column_def)
qed

lemma Fetch_cases:
 "Fetch eng args this w =
   (if m_canFetch this then (Inr True, Column eng args this w, this\<lparr>m_canFetch := False\<rparr>, w)
    else (case sqlite3_step eng (StatementHandle this) w of (res, w') \<Rightarrow>
       if res = SQLITE_ROW then (Inr True, Column eng args this w', this\<lparr>m_canFetch := False\<rparr>, w')
       else if res = SQLITE_DONE then (Inr False, args, this\<lparr>m_canFetch := False\<rparr>, w')
       else (Inl (Sqlite (SqliteException_stmt eng (StatementHandle this) w')), args, this, w')))"
  by (simp add: Fetch_def Step_cases split: prod.splits)

lemma Fetch_flag: "m_canFetch (fst (snd (snd (Fetch eng args this w)))) = False"
  by (simp add: Fetch_cases split: prod.splits)

lemmas wrapper_defs =
  Step_def Reset_def Unbind_def Bind1_def Bind_def Execute_def Execute_void_def Execute_args_def
  and_then_def Fetch_def Column_def Column1_def Binding_Column_def StatementHandle_def
  ConnectionHandle_def Get_def Handle_ctor_def Handle_default_def Handle_Reset_def Release_def
  Handle_dtor_def Handle_assign_from_def nullptr_def
  SqliteException_stmt_def SqliteException_db_def SqliteException_ctor_def
  SQLITE_OK_def SQLITE_ROW_def SQLITE_DONE_def SQLITE_NULL_def
  Binding_nullptr_Bind_def Binding_nullopt_Bind_def Binding_char_ptr_Bind_def
  Binding_char_array_Bind_def Binding_string_view_Bind_def Binding_string_Bind_def
  Binding_int32_Bind_def Binding_int64_Bind_def Binding_bool_Bind_def Binding_span_Bind_def
  Binding_vector_Bind_def Binding_int32_Column_def Binding_int64_Column_def
  Binding_bool_Column_def Binding_string_Column_def Binding_vector_Column_def c_str_def

lemmas ref_defs =
  ref_engine_def ref_step_def ref_reset_def ref_clear_bindings_def ref_bind_def ref_prepare_def
  ref_finalize_def ref_column_def ref_put_def ref_ok_def ref_fail_def rewind_def next_result_def
  text_arg_def compiled_def world_of_def statement_at_def the_stmt_def
  SQLITE_ERROR_def SQLITE_MISUSE_def SQLITE_RANGE_def

lemma flaky_first_eval:
  "flaky_first = (Inr (), statement_at 1 True,
      world_of (flaky\<lparr>st_pc := 1, st_row := [SqlInteger 1]\<rparr>))"
  by (simp add: flaky_first_def flaky_def wrapper_defs ref_defs)

text \<open>
  Claim C2, as stated, fails: a statement whose first step gives a row and whose second
  step fails has the row-available flag set after the first \<^verbatim>\<open>Step\<close>, the second
  \<^verbatim>\<open>Step\<close> raises, and the flag is still set.
\<close>

theorem C2_counterexample:
  "fst flaky_first = Inr () \<and> m_canFetch (fst (snd flaky_first))
   \<and> isl (fst flaky_second) \<and> m_canFetch (fst (snd flaky_second))"
  by (simp add: flaky_second_def flaky_first_eval) (simp add: flaky_def wrapper_defs ref_defs)

lemma Bind1_this: "fst (snd (Bind1 eng i a this w)) = this"
  by (simp add: Bind1_def split: prod.splits)

lemma Bind_at_this: "fst (snd (Bind_at eng i a as this w)) = this"
proof (induction as arbitrary: i a w)
  case Nil
  then show ?case by (simp add: Bind1_this)
next
  case (Cons b as)
  show ?case
  proof (cases "Bind1 eng i a this w")
    case (fields r s w')
    with Bind1_this [of eng i a this w] have s: "s = this" by simp
    show ?thesis
      using fields s Cons.IH [of "i + 1" b w']
      by (cases r) (simp_all add: and_then_def)
  qed
qed

lemma Unbind_this: "fst (snd (Unbind eng this w)) = this"
  by (simp add: Unbind_def split: prod.splits)

lemma Step_raise_flag:
  "isl (fst (Step eng this w)) \<Longrightarrow> fst (snd (Step eng this w)) = this"
  by (simp add: Step_def split: prod.splits if_splits)

lemma Execute_raise_flag:
  assumes ok: "fst (sqlite3_reset eng (StatementHandle this) w) = SQLITE_OK"
    and raised: "isl (fst (Execute eng args this w))"
  shows "\<not> m_canFetch (fst (snd (Execute eng args this w)))"
proof -
  have "Reset eng this w =
      (Inr (), this\<lparr>m_canFetch := False\<rparr>, snd (sqlite3_reset eng (StatementHandle this) w))"
    using ok by (cases "sqlite3_reset eng (StatementHandle this) w") (simp add: Reset_def)
  then obtain w1 where r: "Reset eng this w = (Inr (), this\<lparr>m_canFetch := False\<rparr>, w1)"
    by blast
  let ?s = "this\<lparr>m_canFetch := False\<rparr>"
  obtain r2 w2 where u: "Unbind eng ?s w1 = (r2, ?s, w2)"
    using Unbind_this [of eng ?s w1] by (cases "Unbind eng ?s w1") auto
  show ?thesis
  proof (cases r2)
    case (Inl e)
    then show ?thesis using r u
      by (cases args) (simp_all add: Execute_def Execute_void_def Execute_args_def and_then_def)
  next
    case (Inr x)
    show ?thesis
    proof (cases args)
      case Nil
      then have e: "Execute eng args this w = Step eng ?s w2"
        using r u Inr by (simp add: Execute_def Execute_void_def and_then_def)
      with raised Step_raise_flag [of eng ?s w2] show ?thesis by simp
    next
      case (Cons a as)
      obtain r3 w3 where b: "Bind eng a as ?s w2 = (r3, ?s, w3)"
        using Bind_at_this [of eng 1 a as ?s w2] by (cases "Bind eng a as ?s w2") (auto simp: Bind_def)
      show ?thesis
      proof (cases r3)
        case (Inl e)
        then show ?thesis using r u Inr b Cons
          by (simp add: Execute_def Execute_args_def and_then_def)
      next
        case (Inr y)
        then have e: "Execute eng args this w = Step eng ?s w3"
          using r u \<open>r2 = Inr x\<close> b Cons by (simp add: Execute_def Execute_args_def and_then_def)
        with raised Step_raise_flag [of eng ?s w3] show ?thesis by simp
      qed
    qed
  qed
qed

text \<open>
  Claim C2, amended. A row-produced status sets the row-available flag and raises
  nothing; a done status clears it and raises nothing; any other status raises the
  translated failure and leaves the flag as it was before the call. The flag is therefore
  false after every raise of a \<^verbatim>\<open>Step\<close> that \<^verbatim>\<open>Fetch\<close> issues (it steps only
  when the flag is false) and of one that \<^verbatim>\<open>Execute\<close> issues (it steps after a
  successful \<^verbatim>\<open>Reset\<close>, which clears the flag).
\<close>

theorem C2_Step:
  "Step eng this w =
     (case sqlite3_step eng (StatementHandle this) w of
        (res, w') \<Rightarrow>
          if res = SQLITE_ROW then (Inr (), this\<lparr>m_canFetch := True\<rparr>, w')
          else if res = SQLITE_DONE then (Inr (), this\<lparr>m_canFetch := False\<rparr>, w')
          else (Inl (Sqlite (SqliteException_stmt eng (StatementHandle this) w')), this, w'))
   \<and> (isl (fst (Step eng this w)) \<longrightarrow>
        m_canFetch (fst (snd (Step eng this w))) = m_canFetch this)
   \<and> (isl (fst (Fetch eng outs this w)) \<longrightarrow> \<not> m_canFetch (fst (snd (snd (Fetch eng outs this w)))))
   \<and> (fst (sqlite3_reset eng (StatementHandle this) w) = SQLITE_OK
        \<and> isl (fst (Execute eng args this w)) \<longrightarrow>
        \<not> m_canFetch (fst (snd (Execute eng args this w))))"
  using Step_cases [of eng this w] Step_raise_flag [of eng this w]
    Fetch_flag [of eng outs this w] Execute_raise_flag [of eng this w args]
  by simp

text \<open>The hypotheses of the amended claim C2 hold for a statement whose step fails.\<close>

theorem C2_Step_witness:
  "isl (fst (Step ref_engine (statement_at 1 False) (world_of failing)))
   \<and> m_canFetch (fst (snd (Step ref_engine (statement_at 1 False) (world_of failing)))) = False
   \<and> isl (fst (Fetch ref_engine [] (statement_at 1 False) (world_of failing)))
   \<and> \<not> m_canFetch (fst (snd (snd (Fetch ref_engine [] (statement_at 1 False) (world_of failing)))))
   \<and> fst (sqlite3_reset ref_engine (StatementHandle (statement_at 1 False)) (world_of failing))
       = SQLITE_OK
   \<and> isl (fst (Execute ref_engine [] (statement_at 1 False) (world_of failing)))
   \<and> \<not> m_canFetch (fst (snd (Execute ref_engine [] (statement_at 1 False) (world_of failing))))"
proof -
  have h1: "isl (fst (Step ref_engine (statement_at 1 False) (world_of failing)))"
    by (simp add: failing_def wrapper_defs ref_defs)
  have h2: "isl (fst (Fetch ref_engine [] (statement_at 1 False) (world_of failing)))"
    by (simp add: failing_def wrapper_defs ref_defs)
  have h3: "fst (sqlite3_reset ref_engine (StatementHandle (statement_at 1 False))
      (world_of failing)) = SQLITE_OK"
    by (simp add: failing_def wrapper_defs ref_defs)
  have h4: "isl (fst (Execute ref_engine [] (statement_at 1 False) (world_of failing)))"
    by (simp add: failing_def wrapper_defs ref_defs)
  have f: "m_canFetch (statement_at 1 False) = False"
    by (simp add: statement_at_def)
  show ?thesis
    using C2_Step [of ref_engine "statement_at 1 False" "world_of failing" "[]" "[]"]
      h1 h2 h3 h4 f by metis
qed

text \<open>
  Claim C10. \<^verbatim>\<open>Fetch\<close> with no output argument steps when no row is available,
  returns true and clears the flag when a row is available, returns false when the
  statement is done, and extracts nothing, \<^verbatim>\<open>Column()\<close> being a no-op; its result, the
  statement and the engine's state are those of \<^verbatim>\<open>Fetch\<close> with any arguments.
\<close>

theorem C10_Fetch_no_arguments:
  "Fetch eng [] this w =
     (if m_canFetch this then (Inr True, [], this\<lparr>m_canFetch := False\<rparr>, w)
      else (case sqlite3_step eng (StatementHandle this) w of (res, w') \<Rightarrow>
         if res = SQLITE_ROW then (Inr True, [], this\<lparr>m_canFetch := False\<rparr>, w')
         else if res = SQLITE_DONE then (Inr False, [], this\<lparr>m_canFetch := False\<rparr>, w')
         else (Inl (Sqlite (SqliteException_stmt eng (StatementHandle this) w')), [], this, w')))
   \<and> Column eng [] this w = []
   \<and> (case Fetch eng [] this w of (r, outs, this', w') \<Rightarrow> (r, this', w'))
       = (case Fetch eng args this w of (r, outs, this', w') \<Rightarrow> (r, this', w'))"
proof -
  have c: "Column eng [] this w' = []" for w'
    by (simp add: Column_def)
  have a: "Fetch eng [] this w =
     (if m_canFetch this then (Inr True, [], this\<lparr>m_canFetch := False\<rparr>, w)
      else (case sqlite3_step eng (StatementHandle this) w of (res, w') \<Rightarrow>
         if res = SQLITE_ROW then (Inr True, [], this\<lparr>m_canFetch := False\<rparr>, w')
         else if res = SQLITE_DONE then (Inr False, [], this\<lparr>m_canFetch := False\<rparr>, w')
         else (Inl (Sqlite (SqliteException_stmt eng (StatementHandle this) w')), [], this, w')))"
    by (simp add: Fetch_cases c split: prod.splits)
  have b: "(case Fetch eng [] this w of (r, outs, this', w') \<Rightarrow> (r, this', w'))
       = (case Fetch eng args this w of (r, outs, this', w') \<Rightarrow> (r, this', w'))"
    by (simp add: Fetch_cases split: prod.splits)
  show ?thesis using a b c by (intro conjI)
qed

lemma Handle_ctor_update:
  "Handle_ctor h f\<lparr>m_handle := p\<rparr> = Handle_ctor p f"
  by (simp add: Handle_ctor_def)





subsection \<open>Result sets\<close>

lemma type_of_Column_T: "type_of (Binding_Column_T eng p c t w) = t"
  by (induction t) simp_all

lemma Column_types:
  "Column eng args this w =
     map2 (\<lambda>i t. Binding_Column_T eng (StatementHandle this) (int i) t w)
       [0..<length args] (map type_of args)"
  by (simp add: Column_positions Binding_Column_def zip_map2 split_def)

lemma type_of_Column: "map type_of (Column eng args this w) = map type_of args"
proof -
  have "map type_of (map2 (\<lambda>i t. Binding_Column_T eng p (int i) t w) ns ts) = ts"
    if "length ns = length ts" for p ns and ts :: "out_type list"
    using that by (induction ns ts rule: list_induct2) (simp_all add: type_of_Column_T)
  then show ?thesis by (simp add: Column_types)
qed

lemma Column_cong_types:
  "map type_of args' = map type_of args \<Longrightarrow> StatementHandle this' = StatementHandle this
   \<Longrightarrow> Column eng args' this' w = Column eng args this w"
proof -
  assume t: "map type_of args' = map type_of args" and h: "StatementHandle this' = StatementHandle this"
  from t have "length args' = length args" by (rule map_eq_imp_length_eq)
  with t h show ?thesis by (simp add: Column_types)
qed

lemma Column_Column:
  "Column eng (Column eng args this w1) this w = Column eng args this w"
  by (rule Column_cong_types) (simp_all add: type_of_Column)

lemma upt_Suc_shift: "[0..<Suc n] = 0 # map Suc [0..<n]"
proof -
  have "[0..<Suc n] = 0 # [Suc 0..<Suc n]"
    by (rule upt_conv_Cons) simp
  also have "[Suc 0..<Suc n] = map Suc [0..<n]"
    by (rule map_Suc_upt [symmetric])
  finally show ?thesis .
qed

lemma Fetch_repeat_Suc:
  "Fetch eng args this w = (r, a1, s1, w1) \<Longrightarrow>
   Fetch_repeat eng (Suc n) args this w =
     ((r, a1) # fst (Fetch_repeat eng n a1 s1 w1), snd (Fetch_repeat eng n a1 s1 w1))"
  by (cases "Fetch_repeat eng n a1 s1 w1") (simp only: Fetch_repeat.simps prod.case fst_conv snd_conv)

lemma Fetch_repeat_rows:
  "rows_then_done eng (StatementHandle this) n w \<Longrightarrow> \<not> m_canFetch this \<Longrightarrow>
   Fetch_repeat eng (Suc n) args this w =
     (map (\<lambda>k. (Inr True, Column eng args this (steps eng (StatementHandle this) (Suc k) w))) [0..<n]
        @ [(Inr False,
            if n = 0 then args else Column eng args this (steps eng (StatementHandle this) n w))],
      this\<lparr>m_canFetch := False\<rparr>, steps eng (StatementHandle this) (Suc n) w)"
proof (induction n arbitrary: args this w)
  case 0
  then show ?case
    by (cases "sqlite3_step eng (StatementHandle this) w") (simp add: Fetch_cases SQLITE_ROW_def SQLITE_DONE_def)
next
  case (Suc n)
  let ?p = "StatementHandle this"
  obtain w1 where st: "sqlite3_step eng ?p w = (SQLITE_ROW, w1)"
    using Suc.prems(1) by (cases "sqlite3_step eng ?p w") simp
  let ?a1 = "Column eng args this w1" and ?s1 = "this\<lparr>m_canFetch := False\<rparr>"
  have f: "Fetch eng args this w = (Inr True, ?a1, ?s1, w1)"
    using Suc.prems(2) st by (simp add: Fetch_cases)
  have r: "rows_then_done eng (StatementHandle ?s1) n w1"
    using Suc.prems(1) st by simp
  have ih: "Fetch_repeat eng (Suc n) ?a1 ?s1 w1 =
     (map (\<lambda>k. (Inr True, Column eng ?a1 ?s1 (steps eng (StatementHandle ?s1) (Suc k) w1))) [0..<n]
        @ [(Inr False,
            if n = 0 then ?a1 else Column eng ?a1 ?s1 (steps eng (StatementHandle ?s1) n w1))],
      ?s1\<lparr>m_canFetch := False\<rparr>, steps eng (StatementHandle ?s1) (Suc n) w1)"
    using Suc.IH [OF r, of ?a1] by simp
  have "Fetch_repeat eng (Suc (Suc n)) args this w =
     ((Inr True, ?a1) # fst (Fetch_repeat eng (Suc n) ?a1 ?s1 w1),
      snd (Fetch_repeat eng (Suc n) ?a1 ?s1 w1))"
    by (rule Fetch_repeat_Suc [OF f])
  also have "\<dots> =
     (map (\<lambda>k. (Inr True, Column eng args this (steps eng ?p (Suc k) w))) [0..<Suc n]
        @ [(Inr False, Column eng args this (steps eng ?p (Suc n) w))],
      this\<lparr>m_canFetch := False\<rparr>, steps eng ?p (Suc (Suc n)) w)"
    unfolding ih upt_Suc_shift [of n]
    using st by (simp add: Column_Column o_def del: upt_Suc)
  finally show ?case by simp
qed

lemma Reset_ok:
  "fst (sqlite3_reset eng (StatementHandle this) w) = SQLITE_OK \<Longrightarrow>
   Reset eng this w =
     (Inr (), this\<lparr>m_canFetch := False\<rparr>, snd (sqlite3_reset eng (StatementHandle this) w))"
  by (cases "sqlite3_reset eng (StatementHandle this) w") (simp add: Reset_def)

lemma Fetch_result_idle:
  "\<not> m_canFetch this \<Longrightarrow>
   fst (Fetch eng args this w) =
     (if fst (sqlite3_step eng (StatementHandle this) w) = SQLITE_ROW then Inr True
      else if fst (sqlite3_step eng (StatementHandle this) w) = SQLITE_DONE then Inr False
      else Inl (Sqlite (SqliteException_stmt eng (StatementHandle this)
             (snd (sqlite3_step eng (StatementHandle this) w)))))"
  by (cases "sqlite3_step eng (StatementHandle this) w") (simp add: Fetch_cases)

lemma Fetch_repeat_rows_pending:
  assumes rows: "rows_then_done eng (StatementHandle this) n w" and flag: "m_canFetch this"
  shows "Fetch_repeat eng (Suc (Suc n)) args this w =
     ((Inr True, Column eng args this w)
        # map (\<lambda>k. (Inr True, Column eng args this (steps eng (StatementHandle this) (Suc k) w)))
            [0..<n]
        @ [(Inr False,
            if n = 0 then Column eng args this w
            else Column eng args this (steps eng (StatementHandle this) n w))],
      this\<lparr>m_canFetch := False\<rparr>, steps eng (StatementHandle this) (Suc n) w)"
proof -
  let ?a1 = "Column eng args this w" and ?s1 = "this\<lparr>m_canFetch := False\<rparr>"
  have f: "Fetch eng args this w = (Inr True, ?a1, ?s1, w)"
    using flag by (simp add: Fetch_cases)
  have r: "rows_then_done eng (StatementHandle ?s1) n w" using rows by simp
  have nf: "\<not> m_canFetch ?s1" by simp
  have rest: "Fetch_repeat eng (Suc n) ?a1 ?s1 w =
     (map (\<lambda>k. (Inr True, Column eng args this (steps eng (StatementHandle this) (Suc k) w)))
        [0..<n]
        @ [(Inr False,
            if n = 0 then ?a1 else Column eng args this (steps eng (StatementHandle this) n w))],
      ?s1, steps eng (StatementHandle this) (Suc n) w)"
    using Fetch_repeat_rows [OF r nf, of ?a1]
    by (simp add: Column_Column del: Fetch_repeat.simps steps.simps upt_Suc)
  show ?thesis
    unfolding Fetch_repeat_Suc [OF f] rest by simp
qed

text \<open>
  Claim C8, as stated, fails on an engine that runs a finished statement again when it is
  stepped without a reset, as SQLite does: on a statement with one result row, three calls
  of \<^verbatim>\<open>Fetch\<close> in a row, with no \<^verbatim>\<open>Reset\<close> between them, return true, false and
  true again.
\<close>

theorem C8_counterexample:
  "map fst (fst (Fetch_repeat ref_engine (Suc (Suc (Suc 0))) [O_Int64 0]
      (statement_at 1 False) (world_of one_row)))
   = [Inr True, Inr False, Inr True]"
  by (simp add: one_row_def wrapper_defs ref_defs)

text \<open>
  Claim C8, amended. The statement keeps no state for an exhausted cursor: after
  \<^verbatim>\<open>Fetch\<close> the row-available flag is false in every case, as it is after a
  successful \<^verbatim>\<open>Reset\<close>, and a \<^verbatim>\<open>Fetch\<close> in that state steps the engine once more and
  returns true exactly when that step reports a row and false exactly when it reports that
  the statement is done. Across a result set, when the engine's next \<open>n\<close> steps report
  a row and the step after them reports done, \<open>n + 1\<close> calls of \<^verbatim>\<open>Fetch\<close> starting
  with no row available return true \<open>n\<close> times, the call number \<open>k\<close> extracting the
  columns of the row number \<open>k\<close>, and then false once, with the outputs unchanged;
  starting with a row available, as after \<^verbatim>\<open>Execute\<close>, the first call extracts that row
  without a step and the calls after it go on in the same way.
\<close>

theorem C8_Fetch_result_set:
  "(rows_then_done eng (StatementHandle this) n w \<and> \<not> m_canFetch this \<longrightarrow>
      Fetch_repeat eng (Suc n) args this w =
        (map (\<lambda>k. (Inr True, Column eng args this (steps eng (StatementHandle this) (Suc k) w)))
           [0..<n]
         @ [(Inr False,
             if n = 0 then args else Column eng args this (steps eng (StatementHandle this) n w))],
         this\<lparr>m_canFetch := False\<rparr>, steps eng (StatementHandle this) (Suc n) w))
   \<and> (rows_then_done eng (StatementHandle this) n w \<and> m_canFetch this \<longrightarrow>
      Fetch_repeat eng (Suc (Suc n)) args this w =
        ((Inr True, Column eng args this w)
           # map (\<lambda>k. (Inr True,
                    Column eng args this (steps eng (StatementHandle this) (Suc k) w))) [0..<n]
           @ [(Inr False,
               if n = 0 then Column eng args this w
               else Column eng args this (steps eng (StatementHandle this) n w))],
         this\<lparr>m_canFetch := False\<rparr>, steps eng (StatementHandle this) (Suc n) w))
   \<and> (\<not> m_canFetch this \<longrightarrow>
      fst (Fetch eng args this w) =
        (if fst (sqlite3_step eng (StatementHandle this) w) = SQLITE_ROW then Inr True
         else if fst (sqlite3_step eng (StatementHandle this) w) = SQLITE_DONE then Inr False
         else Inl (Sqlite (SqliteException_stmt eng (StatementHandle this)
                (snd (sqlite3_step eng (StatementHandle this) w))))))
   \<and> m_canFetch (fst (snd (snd (Fetch eng args this w)))) = False
   \<and> (fst (sqlite3_reset eng (StatementHandle this) w) = SQLITE_OK \<longrightarrow>
      Reset eng this w =
        (Inr (), this\<lparr>m_canFetch := False\<rparr>, snd (sqlite3_reset eng (StatementHandle this) w)))"
  using Fetch_repeat_rows [of eng this n w args] Fetch_repeat_rows_pending [of eng this n w args]
    Fetch_result_idle [of this eng args w] Fetch_flag [of eng args this w] Reset_ok [of eng this w]
  by blast

lemma two_rows_left: "rows_then_done ref_engine (Suc 0) (Suc (Suc 0)) (world_of two_rows)"
  by (simp add: two_rows_def wrapper_defs ref_defs)

text \<open>The hypotheses of the amended claim C8 hold for a statement with two result rows.\<close>

theorem C8_Fetch_result_set_witness:
  "rows_then_done ref_engine (StatementHandle (statement_at 1 False)) (Suc (Suc 0))
     (world_of two_rows)
   \<and> \<not> m_canFetch (statement_at 1 False)
   \<and> fst (Fetch_repeat ref_engine (Suc (Suc (Suc 0))) [O_Int64 0] (statement_at 1 False)
        (world_of two_rows))
      = [(Inr True, [O_Int64 7]), (Inr True, [O_Int64 8]), (Inr False, [O_Int64 8])]
   \<and> rows_then_done ref_engine (StatementHandle (statement_at 1 True)) (Suc 0)
       (world_of (two_rows\<lparr>st_pc := 1, st_row := [SqlInteger 7]\<rparr>))
   \<and> m_canFetch (statement_at 1 True)
   \<and> fst (Fetch_repeat ref_engine (Suc (Suc (Suc 0))) [O_Int64 0] (statement_at 1 True)
        (world_of (two_rows\<lparr>st_pc := 1, st_row := [SqlInteger 7]\<rparr>)))
      = [(Inr True, [O_Int64 7]), (Inr True, [O_Int64 8]), (Inr False, [O_Int64 8])]
   \<and> fst (Fetch ref_engine [O_Int64 0] (statement_at 1 False) (world_of two_rows)) = Inr True
   \<and> fst (sqlite3_reset ref_engine (StatementHandle (statement_at 1 False)) (world_of two_rows))
      = SQLITE_OK
   \<and> m_canFetch (fst (snd (Reset ref_engine (statement_at 1 False) (world_of two_rows)))) = False"
proof -
  let ?s = "statement_at 1 False" and ?w = "world_of two_rows"
  have p: "StatementHandle ?s = Suc 0"
    by (simp add: statement_at_def wrapper_defs)
  have h1: "rows_then_done ref_engine (StatementHandle ?s) (Suc (Suc 0)) ?w"
    unfolding p by (rule two_rows_left)
  have h2: "\<not> m_canFetch ?s"
    by (simp add: statement_at_def)
  have h3: "fst (sqlite3_reset ref_engine (StatementHandle ?s) ?w) = SQLITE_OK"
    unfolding p by (simp add: two_rows_def wrapper_defs ref_defs)
  note t = C8_Fetch_result_set [of ref_engine ?s "Suc (Suc 0)" ?w "[O_Int64 0]"]
  have r: "Fetch_repeat ref_engine (Suc (Suc (Suc 0))) [O_Int64 0] ?s ?w =
      (map (\<lambda>k. (Inr True, Column ref_engine [O_Int64 0] ?s
                (steps ref_engine (StatementHandle ?s) (Suc k) ?w))) [0..<Suc (Suc 0)]
         @ [(Inr False,
             if Suc (Suc 0) = 0 then [O_Int64 0]
             else Column ref_engine [O_Int64 0] ?s
                (steps ref_engine (StatementHandle ?s) (Suc (Suc 0)) ?w))],
         ?s\<lparr>m_canFetch := False\<rparr>, steps ref_engine (StatementHandle ?s) (Suc (Suc (Suc 0))) ?w)"
    using t h1 h2 by blast
  have v: "fst (Fetch_repeat ref_engine (Suc (Suc (Suc 0))) [O_Int64 0] ?s ?w)
      = [(Inr True, [O_Int64 7]), (Inr True, [O_Int64 8]), (Inr False, [O_Int64 8])]"
    unfolding r p by (simp add: two_rows_def wrapper_defs ref_defs)
  have f: "fst (Fetch ref_engine [O_Int64 0] ?s ?w) = Inr True"
    using t h2 by (simp add: two_rows_def wrapper_defs ref_defs)
  have g: "m_canFetch (fst (snd (Reset ref_engine ?s ?w))) = False"
    using t h3 by simp
  let ?s' = "statement_at 1 True"
    and ?w' = "world_of (two_rows\<lparr>st_pc := 1, st_row := [SqlInteger 7]\<rparr>)"
  have p': "StatementHandle ?s' = Suc 0"
    by (simp add: statement_at_def wrapper_defs)
  have k1: "rows_then_done ref_engine (StatementHandle ?s') (Suc 0) ?w'"
    unfolding p' by (simp add: two_rows_def wrapper_defs ref_defs)
  have k2: "m_canFetch ?s'"
    by (simp add: statement_at_def)
  note t' = C8_Fetch_result_set [of ref_engine ?s' "Suc 0" ?w' "[O_Int64 0]"]
  have r': "Fetch_repeat ref_engine (Suc (Suc (Suc 0))) [O_Int64 0] ?s' ?w' =
      ((Inr True, Column ref_engine [O_Int64 0] ?s' ?w')
         # map (\<lambda>k. (Inr True, Column ref_engine [O_Int64 0] ?s'
                  (steps ref_engine (StatementHandle ?s') (Suc k) ?w'))) [0..<Suc 0]
         @ [(Inr False,
             if Suc 0 = 0 then Column ref_engine [O_Int64 0] ?s' ?w'
             else Column ref_engine [O_Int64 0] ?s'
                (steps ref_engine (StatementHandle ?s') (Suc 0) ?w'))],
       ?s'\<lparr>m_canFetch := False\<rparr>, steps ref_engine (StatementHandle ?s') (Suc (Suc 0)) ?w')"
    using t' k1 k2 by blast
  have v': "fst (Fetch_repeat ref_engine (Suc (Suc (Suc 0))) [O_Int64 0] ?s' ?w')
      = [(Inr True, [O_Int64 7]), (Inr True, [O_Int64 8]), (Inr False, [O_Int64 8])]"
    unfolding r' p' by (simp add: two_rows_def wrapper_defs ref_defs)
  show ?thesis using h1 h2 v k1 k2 v' f h3 g by (intro conjI)
qed

subsection \<open>Text and optional values\<close>

text \<open>
  Claim C3 at its failing inputs. The bind rules of \<^verbatim>\<open>std::string_view\<close> and
  \<^verbatim>\<open>std::string\<close> pass \<^verbatim>\<open>data()\<close> and \<^verbatim>\<open>c_str()\<close> to
  \<^verbatim>\<open>sqlite3_bind_text\<close> with the length \<open>-1\<close>, whatever the size of the value is. A
  view of the first 5 characters of the buffer \<^verbatim>\<open>"alice_bob"\<close> is bound as the 9
  characters up to the buffer's terminator, and a string of the 3 characters
  \<^verbatim>\<open>a\<close>, zero, \<^verbatim>\<open>b\<close> is bound as the one character before the zero. The rule
  of \<^verbatim>\<open>char[Len]\<close> passes the length \<open>Len - 1\<close>, and a literal is bound as its
  characters.
\<close>

theorem C3_text_bound_as_c_string:
  "Binding_Bind eng pStmt index (StringView data n) w = sqlite3_bind_text eng pStmt index data (- 1) w
   \<and> Binding_Bind eng pStmt index (String s) w = sqlite3_bind_text eng pStmt index (c_str s) (- 1) w
   \<and> Binding_Bind eng pStmt index (CharArray a) w =
       sqlite3_bind_text eng pStmt index a (sint (word_of_nat (length a) - 1 :: 32 word)) w
   \<and> bound_params (CharArray (''alice'' @ [CHR 0x00])) = Some [SqlText ''alice'']
   \<and> view_chars (''alice_bob'' @ [CHR 0x00]) 5 = ''alice''
   \<and> bound_params (StringView (''alice_bob'' @ [CHR 0x00]) 5) = Some [SqlText ''alice_bob'']
   \<and> bound_params (String [CHR ''a'', CHR 0x00, CHR ''b'']) = Some [SqlText ''a'']"
  by (simp add: bound_params_def view_chars_def echo1_def wrapper_defs ref_defs)

lemma Step_handle: "StatementHandle (fst (snd (Step eng this w))) = StatementHandle this"
  by (simp add: Step_def split: prod.splits)

lemma Reset_handle: "StatementHandle (fst (snd (Reset eng this w))) = StatementHandle this"
  by (simp add: Reset_def split: prod.splits)

lemma and_then_handle:
  assumes "\<And>s w. StatementHandle (fst (snd (f s w))) = StatementHandle s"
    and "\<And>s w. StatementHandle (fst (snd (g s w))) = StatementHandle s"
  shows "StatementHandle (fst (snd (and_then f g this w))) = StatementHandle this"
proof (cases "f this w")
  case (fields r s1 w1)
  with assms(1) [of this w] have h: "StatementHandle s1 = StatementHandle this" by simp
  show ?thesis
    using fields h assms(2) [of s1 w1] by (cases r) (simp_all add: and_then_def)
qed

lemma Execute_handle:
  "StatementHandle (fst (snd (Execute eng args this w))) = StatementHandle this"
proof (cases args)
  case Nil
  then show ?thesis
    by (simp add: Execute_def Execute_void_def and_then_handle Reset_handle Unbind_this Step_handle)
next
  case (Cons a as)
  then show ?thesis
    by (simp add: Execute_def Execute_args_def Bind_def and_then_handle Reset_handle Unbind_this
        Step_handle Bind_at_this)
qed

lemma Fetch_one:
  "Fetch eng [out] this w =
     (case row_world eng this w of
        Some w2 \<Rightarrow> (Inr True, [Binding_Column eng (StatementHandle this) 0 out w2],
                     this\<lparr>m_canFetch := False\<rparr>, w2)
      | None \<Rightarrow> (fst (Fetch eng [out] this w), [out], snd (snd (Fetch eng [out] this w))))"
  by (cases "sqlite3_step eng (StatementHandle this) w")
     (simp add: Fetch_cases row_world_def Step_cases Column_def Column1_def)

lemma Fetch_one_None:
  "row_world eng this w = None \<Longrightarrow> fst (Fetch eng [out] this w) \<noteq> Inr True"
  by (cases "sqlite3_step eng (StatementHandle this) w")
     (simp add: Fetch_cases row_world_def Step_cases split: if_splits)

lemma roundtrip_eq:
  "roundtrip eng arg out this w =
     map_option (Binding_Column eng (StatementHandle this) 0 out) (roundtrip_world eng arg this w)"
proof (cases "Execute eng [arg] this w")
  case (fields r this1 w1)
  show ?thesis
  proof (cases r)
    case (Inl e)
    with fields show ?thesis by (simp add: roundtrip_def roundtrip_world_def)
  next
    case (Inr u)
    have h: "StatementHandle this1 = StatementHandle this"
      using Execute_handle [of eng "[arg]" this w] fields by simp
    show ?thesis
    proof (cases "row_world eng this1 w1")
      case None
      obtain b outs s2 w2 where f: "Fetch eng [out] this1 w1 = (b, outs, s2, w2)"
        by (cases "Fetch eng [out] this1 w1") auto
      with Fetch_one_None [OF None, of out] have "b \<noteq> Inr True" by simp
      then have "(case b of Inl e \<Rightarrow> None | Inr True \<Rightarrow> Some (hd outs) | Inr False \<Rightarrow> None) = None"
        by (cases b) (auto split: bool.splits)
      then show ?thesis
        using fields Inr None f
        by (simp add: roundtrip_def roundtrip_world_def split: sum.splits bool.splits)
    next
      case (Some w2)
      then show ?thesis
        using fields Inr h Fetch_one [of eng out this1 w1]
        by (simp add: roundtrip_def roundtrip_world_def)
    qed
  qed
qed

lemma Bind1_Optional_Some: "Bind1 eng i (Optional (Some v)) = Bind1 eng i v"
  by (rule ext, rule ext) (simp add: Bind1_def)

lemma Bind1_Optional_None: "Bind1 eng i (Optional None) = Bind1 eng i Nullptr"
  by (rule ext, rule ext) (simp add: Bind1_def)

lemma Execute_Optional_Some:
  "Execute eng [Optional (Some v)] this w = Execute eng [v] this w"
  by (simp add: Execute_def Execute_args_def Bind_def Bind1_Optional_Some)

lemma Execute_Optional_None:
  "Execute eng [Optional None] this w = Execute eng [Nullptr] this w"
  by (simp add: Execute_def Execute_args_def Bind_def Bind1_Optional_None)

lemma Binding_Column_Optional:
  "Binding_Column eng p c (O_Optional t x) w =
     (if sqlite3_column_type eng p c w = SQLITE_NULL then O_Optional t None
      else O_Optional t (Some (Binding_Column eng p c (value_init t) w)))"
proof -
  have "type_of (value_init t) = t" by (cases t) simp_all
  then show ?thesis by (simp add: Binding_Column_def)
qed

lemma roundtrip_Optional_Some:
  "roundtrip eng (Optional (Some v)) (O_Optional t x) this w =
     (case roundtrip_world eng v this w of
        None \<Rightarrow> None
      | Some w2 \<Rightarrow>
          if sqlite3_column_type eng (StatementHandle this) 0 w2 = SQLITE_NULL
          then Some (O_Optional t None)
          else map_option (\<lambda>y. O_Optional t (Some y)) (roundtrip eng v (value_init t) this w))"
proof -
  have w: "roundtrip_world eng (Optional (Some v)) this w = roundtrip_world eng v this w"
    by (simp add: roundtrip_world_def Execute_Optional_Some)
  show ?thesis
    by (simp add: roundtrip_eq [of eng "Optional (Some v)"] roundtrip_eq [of eng v] w
        Binding_Column_Optional split: option.splits)
qed

lemma roundtrip_Optional_None:
  "roundtrip eng (Optional None) (O_Optional t x) this w =
     (case roundtrip_world eng Nullptr this w of
        None \<Rightarrow> None
      | Some w2 \<Rightarrow>
          if sqlite3_column_type eng (StatementHandle this) 0 w2 = SQLITE_NULL
          then Some (O_Optional t None)
          else Some (O_Optional t (Some (Binding_Column eng (StatementHandle this) 0
                 (value_init t) w2))))"
proof -
  have w: "roundtrip_world eng (Optional None) this w = roundtrip_world eng Nullptr this w"
    by (simp add: roundtrip_world_def Execute_Optional_None)
  show ?thesis
    by (simp add: roundtrip_eq [of eng "Optional None"] w Binding_Column_Optional
        split: option.splits)
qed

lemma echo_null_world:
  "roundtrip_world ref_engine Nullptr (statement_at 1 b) (world_of echo1) =
     Some (world_of (echo1\<lparr>st_pc := 1, st_row := [SqlNull]\<rparr>))"
  by (simp add: roundtrip_world_def row_world_def echo1_def wrapper_defs ref_defs)

lemma echo_null_type:
  "sqlite3_column_type ref_engine (StatementHandle (statement_at 1 b)) 0
     (world_of (echo1\<lparr>st_pc := 1, st_row := [SqlNull]\<rparr>)) = SQLITE_NULL"
  by (simp add: echo1_def wrapper_defs ref_defs)

lemma roundtrip_absent_echo:
  "roundtrip ref_engine (Optional None) (O_Optional t x) (statement_at 1 b) (world_of echo1)
   = Some (O_Optional t None)"
  by (simp only: roundtrip_Optional_None echo_null_world echo_null_type option.case simp_thms
      if_True)

text \<open>
  Claim C7, as stated, fails for \<^verbatim>\<open>T = std::optional<std::int32_t>\<close>: an absent
  \<^verbatim>\<open>T\<close> round-trips to an absent \<^verbatim>\<open>T\<close>, but a present
  \<^verbatim>\<open>std::optional<T>\<close> holding that absent \<^verbatim>\<open>T\<close> is read back absent, not
  present.
\<close>

theorem C7_counterexample:
  "roundtrip ref_engine (Optional None) (O_Optional T_Int32 None)
     (statement_at 1 False) (world_of echo1)
   = Some (O_Optional T_Int32 None)
   \<and> roundtrip ref_engine (Optional (Some (Optional None)))
       (O_Optional (T_Optional T_Int32) None) (statement_at 1 False) (world_of echo1)
     = Some (O_Optional (T_Optional T_Int32) None)
   \<and> roundtrip ref_engine (Optional (Some (Optional None)))
       (O_Optional (T_Optional T_Int32) None) (statement_at 1 False) (world_of echo1)
     \<noteq> Some (O_Optional (T_Optional T_Int32) (Some (O_Optional T_Int32 None)))"
  by (simp add: roundtrip_def echo1_def wrapper_defs ref_defs)

text \<open>
  Claim C7, amended. Binding an absent optional binds SQL NULL, and binding a present one
  is the bind rule of \<^verbatim>\<open>T\<close> on its value. Reading a column into an optional gives an
  absent optional when the column is SQL NULL, and otherwise a present one holding what
  the column rule of \<^verbatim>\<open>T\<close> reads into a value-initialized \<^verbatim>\<open>T\<close>. So the round trip
  of a present optional is that of its value, made present, when the column read back is
  not SQL NULL, and it is absent when the rule of \<^verbatim>\<open>T\<close> has bound SQL NULL; an absent
  optional bound to the parameter of \<^verbatim>\<open>SELECT ?\<close> is read back absent, for every
  \<^verbatim>\<open>T\<close>.
\<close>

theorem C7_optional:
  "Binding_Bind eng p i (Optional None) w = sqlite3_bind_null eng p i w
   \<and> Binding_Bind eng p i (Optional (Some v)) w = Binding_Bind eng p i v w
   \<and> Binding_Column eng p c (O_Optional t x) w =
       (if sqlite3_column_type eng p c w = SQLITE_NULL then O_Optional t None
        else O_Optional t (Some (Binding_Column eng p c (value_init t) w)))
   \<and> roundtrip eng (Optional (Some v)) (O_Optional t x) this w =
       (case roundtrip_world eng v this w of
          None \<Rightarrow> None
        | Some w2 \<Rightarrow>
            if sqlite3_column_type eng (StatementHandle this) 0 w2 = SQLITE_NULL
            then Some (O_Optional t None)
            else map_option (\<lambda>y. O_Optional t (Some y)) (roundtrip eng v (value_init t) this w))
   \<and> roundtrip ref_engine (Optional None) (O_Optional t x) (statement_at 1 b) (world_of echo1)
       = Some (O_Optional t None)"
proof -
  have a: "Binding_Bind eng p i (Optional None) w = sqlite3_bind_null eng p i w"
    by (simp add: Binding_nullptr_Bind_def)
  have b: "Binding_Bind eng p i (Optional (Some v)) w = Binding_Bind eng p i v w"
    by simp
  show ?thesis
    using a b Binding_Column_Optional [of eng p c t x w]
      roundtrip_Optional_Some [of eng v t x this w] roundtrip_absent_echo [of t x b]
    by (intro conjI)
qed

subsection \<open>Fetching a row\<close>

lemma Fetch_handle:
  "StatementHandle (fst (snd (snd (Fetch eng args this w)))) = StatementHandle this"
  by (simp add: Fetch_cases split: prod.splits)

lemma Fetch_after_Fetch:
  "snd (snd (snd (Fetch eng args' (fst (snd (snd (Fetch eng args this w)))) w')))
   = snd (sqlite3_step eng (StatementHandle this) w')"
proof -
  let ?s = "fst (snd (snd (Fetch eng args this w)))"
  have f: "\<not> m_canFetch ?s" by (simp add: Fetch_flag)
  have h: "StatementHandle ?s = StatementHandle this" by (rule Fetch_handle)
  show ?thesis
    using f h by (simp add: Fetch_cases [of eng args' ?s w'] split: prod.splits)
qed

lemma Binding_Column_rules:
  "Binding_Column eng p c (O_Int32 x) w = O_Int32 (sqlite3_column_int eng p c w)"
  "Binding_Column eng p c (O_Int64 y) w = O_Int64 (sqlite3_column_int64 eng p c w)"
  "Binding_Column eng p c (O_Bool b) w = O_Bool (sqlite3_column_int eng p c w \<noteq> 0)"
  "Binding_Column eng p c (O_String s) w =
     O_String (take (sqlite3_column_bytes eng p c w) (sqlite3_column_text eng p c w))"
  "Binding_Column eng p c (O_ByteVector bs) w =
     O_ByteVector (take (sqlite3_column_bytes eng p c w) (sqlite3_column_blob eng p c w))"
  by (simp_all add: Binding_Column_def Binding_int32_Column_def Binding_int64_Column_def
      Binding_bool_Column_def Binding_string_Column_def Binding_vector_Column_def)

lemma flaky_second_eval:
  "flaky_second = (Inl (Sqlite \<lparr>what = ''error'', m_extendedErrorCode = 1\<rparr>), statement_at 1 True,
      \<lparr>w_catalog = [], w_stmts = [(1, flaky\<lparr>st_pc := 1, st_halted := True, st_rc := 1\<rparr>)],
       w_errcode = 1, w_errmsg = ''error''\<rparr>)"
  by (simp add: flaky_second_def flaky_first_eval) (simp add: flaky_def wrapper_defs ref_defs)

text \<open>
  Claim C1, as stated, fails in its last sentence. On the statement whose first step
  gives a row and whose second step fails, a \<^verbatim>\<open>Fetch\<close> after the first
  \<^verbatim>\<open>Step\<close> returns true and leaves the engine as it was, which a step
  does not: it performs no step.
  A \<^verbatim>\<open>Fetch\<close> after the second \<^verbatim>\<open>Step\<close>, which raised and left the flag
  set, returns true as well, again without a step, while the statement has no current row:
  the output argument holds the zero that the engine gives for a column that is not there.
\<close>

theorem C1_counterexample:
  "fst pending_fetch = Inr True
   \<and> fst (snd pending_fetch) = [O_Int64 1]
   \<and> snd (snd (snd pending_fetch)) = snd (snd flaky_first)
   \<and> snd (sqlite3_step ref_engine 1 (snd (snd flaky_first))) \<noteq> snd (snd flaky_first)
   \<and> fst stale_fetch = Inr True
   \<and> fst (snd stale_fetch) = [O_Int64 0]
   \<and> snd (snd (snd stale_fetch)) = snd (snd flaky_second)
   \<and> map_option st_row (the_stmt (snd (snd flaky_second))) = Some []"
  by (simp add: pending_fetch_def stale_fetch_def flaky_first_eval flaky_second_eval)
     (simp add: flaky_def wrapper_defs ref_defs)

text \<open>
  Claim C1, amended. When the row-available flag is clear, \<^verbatim>\<open>Fetch\<close> performs one
  step; when it is set, none. When a row is then available it returns true, the output
  arguments hold what \<^verbatim>\<open>Column\<close> extracts, which is the column rule of each argument
  at the positions 0, 1, 2, ... in order, and the flag is cleared. The column rules read the
  engine's current state: a 32-bit integer and a boolean from \<^verbatim>\<open>sqlite3_column_int\<close>,
  a 64-bit integer from \<^verbatim>\<open>sqlite3_column_int64\<close>, a string and a byte vector from
  the text and the blob cut at \<^verbatim>\<open>sqlite3_column_bytes\<close>, an optional by the type of
  the column. When the step reports that the statement is done, \<^verbatim>\<open>Fetch\<close> returns
  false and the output arguments are unchanged; when the step fails, the failure propagates
  and the output arguments are unchanged. Every \<^verbatim>\<open>Fetch\<close> leaves the flag clear, so
  a \<^verbatim>\<open>Fetch\<close> that follows a \<^verbatim>\<open>Fetch\<close> performs exactly one step: the engine
  is left as that one step leaves it.
\<close>

theorem C1_Fetch:
 "Fetch eng args this w =
   (if m_canFetch this then (Inr True, Column eng args this w, this\<lparr>m_canFetch := False\<rparr>, w)
    else (case sqlite3_step eng (StatementHandle this) w of (res, w') \<Rightarrow>
       if res = SQLITE_ROW then (Inr True, Column eng args this w', this\<lparr>m_canFetch := False\<rparr>, w')
       else if res = SQLITE_DONE then (Inr False, args, this\<lparr>m_canFetch := False\<rparr>, w')
       else (Inl (Sqlite (SqliteException_stmt eng (StatementHandle this) w')), args, this, w')))
  \<and> Column eng args this w =
      map2 (\<lambda>i a. Binding_Column eng (StatementHandle this) (int i) a w) [0..<length args] args
  \<and> Binding_Column eng p c (O_Int32 x) w = O_Int32 (sqlite3_column_int eng p c w)
  \<and> Binding_Column eng p c (O_Int64 y) w = O_Int64 (sqlite3_column_int64 eng p c w)
  \<and> Binding_Column eng p c (O_Bool b) w = O_Bool (sqlite3_column_int eng p c w \<noteq> 0)
  \<and> Binding_Column eng p c (O_String s) w =
      O_String (take (sqlite3_column_bytes eng p c w) (sqlite3_column_text eng p c w))
  \<and> Binding_Column eng p c (O_ByteVector bs) w =
      O_ByteVector (take (sqlite3_column_bytes eng p c w) (sqlite3_column_blob eng p c w))
  \<and> Binding_Column eng p c (O_Optional t v) w =
      (if sqlite3_column_type eng p c w = SQLITE_NULL then O_Optional t None
       else O_Optional t (Some (Binding_Column eng p c (value_init t) w)))
  \<and> m_canFetch (fst (snd (snd (Fetch eng args this w)))) = False
  \<and> snd (snd (snd (Fetch eng args' (fst (snd (snd (Fetch eng args this w)))) w')))
      = snd (sqlite3_step eng (StatementHandle this) w')"
  using Fetch_cases [of eng args this w] Column_positions [of eng args this w]
    Binding_Column_rules [of eng p c _ w] Binding_Column_Optional [of eng p c t v w]
    Fetch_flag [of eng args this w] Fetch_after_Fetch [of eng args' args this w w']
  by (intro conjI)

subsection \<open>Executing\<close>















lemma params_at_put: "params_at p (ref_put p st w) = Some (st_params st)"
  by (simp add: params_at_def ref_put_def update_conv')


lemma lookup_ok_fail [simp]:
  "w_stmts (ref_ok w) = w_stmts w" "w_stmts (ref_fail rc w) = w_stmts w"
  by (simp_all add: ref_ok_def ref_fail_def)















subsection \<open>Handles\<close>

lemma owners_Cons: "owners v (h # hs) = owns_count v h + owners v hs"
  by (simp add: owners_def owns_count_def)

lemma owners_update:
  "i < length hs \<Longrightarrow> owners v (hs[i := h]) + owns_count v (hs ! i) = owners v hs + owns_count v h"
proof (induction hs arbitrary: i)
  case Nil
  then show ?case by simp
next
  case (Cons x xs)
  show ?case
  proof (cases i)
    case 0
    then show ?thesis by (simp add: owners_Cons)
  next
    case (Suc j)
    with Cons.prems have "j < length xs" by simp
    from Cons.IH [OF this] Suc show ?thesis by (simp add: owners_Cons)
  qed
qed

lemma list_all_update:
  "list_all P hs \<Longrightarrow> P h \<Longrightarrow> list_all P (hs[i := h])"
proof -
  assume a: "list_all P hs" and b: "P h"
  have "set (hs[i := h]) \<subseteq> insert h (set hs)" by (rule set_update_subset_insert)
  with a b show ?thesis by (auto simp: list_all_iff)
qed

lemma count_list_snoc: "count_list (xs @ [x]) v = count_list xs v + (if x = v then 1 else 0)"
  by (induction xs) simp_all

lemma Handle_Reset_facts:
  "recording (Handle_Reset i h)" "m_releaseFn (Handle_Reset i h) = None"
  "owns_count v (Handle_Reset i h) = 0"
  by (simp_all add: recording_def Handle_Reset_def owns_count_def owns_def)

lemma Release_conserves:
  assumes rec: "recording h" and v: "v \<noteq> i" and rel: "Release i h log = (r, h', log')"
  shows "recording h'"
    and "count_list log' v + owns_count v h' = count_list log v + owns_count v h"
    and "count_list log v \<le> count_list log' v"
proof -
  show "recording h'"
    using rec rel by (auto simp: Release_def Handle_Reset_facts split: if_splits option.splits)
  show "count_list log' v + owns_count v h' = count_list log v + owns_count v h"
    using rec rel v
    by (auto simp: Release_def recording_def record_release_def count_list_snoc owns_count_def
        owns_def Handle_Reset_def split: if_splits option.splits)
  show "count_list log v \<le> count_list log' v"
    using rec rel
    by (auto simp: Release_def recording_def record_release_def count_list_snoc
        split: if_splits option.splits)
qed

lemma Handle_dtor_conserves:
  assumes rec: "recording h" and v: "v \<noteq> i" and d: "Handle_dtor i h log = (h', log')"
  shows "m_releaseFn h' = None"
    and "count_list log' v = count_list log v + owns_count v h"
    and "count_list log v \<le> count_list log' v"
proof -
  obtain r h1 log1 where rel: "Release i h log = (r, h1, log1)"
    by (cases "Release i h log") auto
  note c = Release_conserves [OF rec v rel]
  have h': "m_releaseFn h' = None" and l: "log' = log1"
    using rel d by (auto simp: Handle_dtor_def Release_def Handle_Reset_def split: if_splits option.splits)
  have "owns_count v h1 = 0"
    using rel v by (auto simp: Release_def Handle_Reset_facts owns_count_def owns_def
        split: if_splits option.splits)
  with c(2) l show "count_list log' v = count_list log v + owns_count v h" by simp
  show "m_releaseFn h' = None" by (rule h')
  show "count_list log v \<le> count_list log' v" using c(3) l by simp
qed

lemma no_fn_facts:
  "m_releaseFn h = None \<Longrightarrow> recording h" "m_releaseFn h = None \<Longrightarrow> owns_count v h = 0"
  by (simp_all add: recording_def owns_count_def owns_def)

lemma op_conserves:
  assumes v: "v \<noteq> i" and rec: "list_all recording hs" and ok: "handle_op_ok (length hs) op"
    and run: "run_handle_op i op (hs, log) = (hs', log')"
  shows "length hs' = length hs \<and> list_all recording hs'
    \<and> count_list log' v + owners v hs' = count_list log v + owners v hs
    \<and> count_list log v \<le> count_list log' v"
proof (cases op)
  case (Op_Release a)
  with ok have a: "a < length hs" by simp
  obtain r h1 log1 where rel: "Release i (hs ! a) log = (r, h1, log1)"
    by (cases "Release i (hs ! a) log") auto
  have ra: "recording (hs ! a)" using rec a by (simp add: list_all_length)
  note c = Release_conserves [OF ra v rel]
  have e: "hs' = hs[a := h1]" "log' = log1"
    using run Op_Release rel by (simp_all add: Handle_Release_at_def)
  show ?thesis
    using c owners_update [OF a, of v h1] list_all_update [OF rec c(1), of a] e by simp
next
  case (Op_Destroy a)
  with ok have a: "a < length hs" by simp
  obtain h1 log1 where d: "Handle_dtor i (hs ! a) log = (h1, log1)"
    by (cases "Handle_dtor i (hs ! a) log") auto
  have ra: "recording (hs ! a)" using rec a by (simp add: list_all_length)
  note c = Handle_dtor_conserves [OF ra v d]
  have e: "hs' = hs[a := h1]" "log' = log1"
    using run Op_Destroy d by (simp_all add: Handle_dtor_at_def)
  show ?thesis
    using c owners_update [OF a, of v h1] list_all_update [OF rec no_fn_facts(1) [OF c(1)], of a]
      no_fn_facts(2) [OF c(1), of v] e by simp
next
  case (Op_Move a b)
  with ok have a: "a < length hs" and b: "b < length hs" by simp_all
  show ?thesis
  proof (cases "a = b")
    case True
    with run Op_Move rec show ?thesis by (auto simp: Handle_move_assign_def)
  next
    case False
    obtain r h1 log1 where rel: "Release i (hs ! a) log = (r, h1, log1)"
      by (cases "Release i (hs ! a) log") auto
    have ra: "recording (hs ! a)" and rb: "recording (hs ! b)"
      using rec a b by (simp_all add: list_all_length)
    note c = Release_conserves [OF ra v rel]
    let ?t = "h1\<lparr>m_handle := m_handle (hs ! b), m_releaseFn := m_releaseFn (hs ! b)\<rparr>"
    let ?o = "Handle_Reset i (hs ! b)"
    have e: "hs' = hs[a := ?t, b := ?o]" "log' = log1"
      using run Op_Move rel False by (simp_all add: Handle_move_assign_def Handle_assign_from_def)
    have rt: "recording ?t" using rb by (simp add: recording_def)
    have ot: "owns_count v ?t = owns_count v (hs ! b)" by (simp add: owns_count_def owns_def)
    have h1z: "owns_count v h1 = 0"
      using rel v by (auto simp: Release_def Handle_Reset_facts owns_count_def owns_def
          split: if_splits option.splits)
    have u1: "owners v (hs[a := ?t]) + owns_count v (hs ! a) = owners v hs + owns_count v ?t"
      by (rule owners_update [OF a])
    have b': "b < length (hs[a := ?t])" using b by simp
    have nb: "hs[a := ?t] ! b = hs ! b" using False by simp
    have u2: "owners v (hs[a := ?t, b := ?o]) + owns_count v (hs ! b)
        = owners v (hs[a := ?t]) + owns_count v ?o"
      using owners_update [OF b', of v ?o] nb by simp
    have oz: "owns_count v ?o = 0" by (rule Handle_Reset_facts(3))
    have cons: "count_list log1 v + owners v (hs[a := ?t, b := ?o]) = count_list log v + owners v hs"
      using u1 u2 ot oz c(2) h1z by simp
    have recs: "list_all recording (hs[a := ?t, b := ?o])"
      by (intro list_all_update rec rt Handle_Reset_facts(1))
    show ?thesis using e cons recs c(3) by simp
  qed
qed

lemma ops_conserve:
  "v \<noteq> i \<Longrightarrow> list_all recording hs \<Longrightarrow> list_all (handle_op_ok (length hs)) ops \<Longrightarrow>
   run_handle_ops i ops (hs, log) = (hs', log') \<Longrightarrow>
   length hs' = length hs \<and> list_all recording hs'
    \<and> count_list log' v + owners v hs' = count_list log v + owners v hs
    \<and> count_list log v \<le> count_list log' v"
proof (induction ops arbitrary: hs log)
  case Nil
  then show ?case by (simp add: run_handle_ops_def)
next
  case (Cons op ops)
  obtain hs1 log1 where s: "run_handle_op i op (hs, log) = (hs1, log1)"
    by (cases "run_handle_op i op (hs, log)") auto
  have ok: "handle_op_ok (length hs) op" using Cons.prems(3) by simp
  note c = op_conserves [OF Cons.prems(1) Cons.prems(2) ok s]
  have oks: "list_all (handle_op_ok (length hs1)) ops" using Cons.prems(3) c by simp
  have r: "run_handle_ops i ops (hs1, log1) = (hs', log')"
    using Cons.prems(4) s by (simp add: run_handle_ops_def)
  from Cons.IH [OF Cons.prems(1) _ oks r] c show ?case by simp
qed

lemma Handle_Reset_default: "Handle_Reset i (h :: ('t, 'w) Handle) = Handle_default i"
  by (cases h) (simp add: Handle_Reset_def Handle_default_def Handle_ctor_def)

lemma Release_cases:
  "Release i h w =
     (if m_handle h \<noteq> i \<and> m_releaseFn h \<noteq> None
      then (True, Handle_default i, the (m_releaseFn h) (m_handle h) w)
      else (False, h, w))"
  by (auto simp: Release_def Handle_Reset_default split: option.splits)

lemma Release_default: "Release i (Handle_default i) w = (False, Handle_default i, w)"
  by (simp add: Release_def Handle_default_def Handle_ctor_def)

lemma Release_twice:
  "Release i (fst (snd (Release i h w))) w' = (False, fst (snd (Release i h w)), w')"
  by (simp add: Release_cases Handle_default_def Handle_ctor_def)

lemma Handle_dtor_cases: "Handle_dtor i h w = (Handle_default i, snd (snd (Release i h w)))"
  by (simp add: Handle_dtor_def Release_cases Handle_Reset_default)

lemma Handle_move_assign_self: "Handle_move_assign i a a hs w = (hs, w)"
  by (simp add: Handle_move_assign_def)

lemma Handle_overwrite:
  "(h :: ('t, 'w) Handle)\<lparr>m_handle := x, m_releaseFn := f\<rparr> = Handle_ctor x f"
  by (cases h) (simp add: Handle_ctor_def)

lemma Handle_move_assign_other:
  "a \<noteq> b \<Longrightarrow>
   Handle_move_assign i a b hs w =
     (hs[a := Handle_ctor (m_handle (hs ! b)) (m_releaseFn (hs ! b)), b := Handle_default i],
      snd (snd (Release i (hs ! a) w)))"
  by (simp add: Handle_move_assign_def Handle_assign_from_def Release_cases Handle_Reset_default
      Handle_overwrite)

lemma Handle_dtor_at_reset:
  "a < length hs \<Longrightarrow> Handle_dtor_at i a hs w = (hs', w') \<Longrightarrow>
   length hs' = length hs \<and> m_releaseFn (hs' ! a) = None
   \<and> (\<forall>j<length hs. m_releaseFn (hs ! j) = None \<longrightarrow> m_releaseFn (hs' ! j) = None)"
  by (auto simp: Handle_dtor_at_def Handle_dtor_cases Handle_default_def Handle_ctor_def
      nth_list_update)

lemma destroy_resets:
  "list_all (\<lambda>a. a < length hs) as \<Longrightarrow>
   run_handle_ops i (map Op_Destroy as) (hs, w) = (hs', w') \<Longrightarrow>
   length hs' = length hs \<and> (\<forall>a\<in>set as. m_releaseFn (hs' ! a) = None)
   \<and> (\<forall>j<length hs. m_releaseFn (hs ! j) = None \<longrightarrow> m_releaseFn (hs' ! j) = None)"
proof (induction as arbitrary: hs w)
  case Nil
  then show ?case by (simp add: run_handle_ops_def)
next
  case (Cons a as)
  have a: "a < length hs" using Cons.prems(1) by simp
  obtain hs1 w1 where d: "Handle_dtor_at i a hs w = (hs1, w1)"
    by (cases "Handle_dtor_at i a hs w") auto
  note f = Handle_dtor_at_reset [OF a d]
  have oks: "list_all (\<lambda>a. a < length hs1) as" using Cons.prems(1) f by simp
  have r: "run_handle_ops i (map Op_Destroy as) (hs1, w1) = (hs', w')"
    using Cons.prems(2) d by (simp add: run_handle_ops_def)
  note ih = Cons.IH [OF oks r]
  show ?case using ih f a by auto
qed

lemma owners_none:
  "\<forall>j<length hs. m_releaseFn (hs ! j) = None \<Longrightarrow> owners v hs = 0"
proof -
  assume a: "\<forall>j<length hs. m_releaseFn (hs ! j) = None"
  have "\<not> owns v h" if "h \<in> set hs" for h
    using that a by (auto simp: in_set_conv_nth owns_def)
  then have "filter (owns v) hs = []" by (simp add: filter_empty_conv)
  then show ?thesis by (simp add: owners_def)
qed

lemma destroy_all_owners:
  "destroy_all i (hs, w) = (hs', w') \<Longrightarrow> length hs' = length hs \<and> owners v hs' = 0"
proof -
  assume d: "destroy_all i (hs, w) = (hs', w')"
  have oks: "list_all (\<lambda>a. a < length hs) [0..<length hs]" by (simp add: list_all_iff)
  have r: "run_handle_ops i (map Op_Destroy [0..<length hs]) (hs, w) = (hs', w')"
    using d by (simp add: destroy_all_def)
  note f = destroy_resets [OF oks r]
  have len: "length hs' = length hs" using f by simp
  have "m_releaseFn (hs' ! j) = None" if "j < length hs'" for j
    using f that len by simp
  then have z: "\<forall>j<length hs'. m_releaseFn (hs' ! j) = None" by simp
  have "owners v hs' = 0" by (rule owners_none [OF z])
  with len show ?thesis by simp
qed

lemma handles_released_once:
  assumes v: "v \<noteq> i" and rec: "list_all recording rs"
    and ok: "list_all (handle_op_ok (length rs)) ops"
  shows "count_list (snd (run_handle_ops i ops (rs, log))) v
           + owners v (fst (run_handle_ops i ops (rs, log))) = count_list log v + owners v rs"
    and "owners v (fst (run_handle_ops i ops (rs, log))) \<le> owners v rs"
    and "count_list (snd (destroy_all i (run_handle_ops i ops (rs, log)))) v
           = count_list log v + owners v rs"
proof -
  obtain hs1 log1 where r: "run_handle_ops i ops (rs, log) = (hs1, log1)"
    by (cases "run_handle_ops i ops (rs, log)") auto
  note c = ops_conserve [OF v rec ok r]
  show "count_list (snd (run_handle_ops i ops (rs, log))) v
           + owners v (fst (run_handle_ops i ops (rs, log))) = count_list log v + owners v rs"
    using c r by simp
  show "owners v (fst (run_handle_ops i ops (rs, log))) \<le> owners v rs"
    using c r by simp
  obtain hs2 log2 where d: "destroy_all i (hs1, log1) = (hs2, log2)"
    by (cases "destroy_all i (hs1, log1)") auto
  have oks: "list_all (handle_op_ok (length hs1)) (map Op_Destroy [0..<length hs1])"
    by (simp add: list_all_iff)
  have r2: "run_handle_ops i (map Op_Destroy [0..<length hs1]) (hs1, log1) = (hs2, log2)"
    using d by (simp add: destroy_all_def)
  have rec1: "list_all recording hs1" using c by simp
  note c2 = ops_conserve [OF v rec1 oks r2]
  note z = destroy_all_owners [OF d, of v]
  show "count_list (snd (destroy_all i (run_handle_ops i ops (rs, log)))) v
           = count_list log v + owners v rs"
    using c c2 z r d by simp
qed

text \<open>
  Claim C4. \<^verbatim>\<open>Release\<close> calls the release function, on the held value, exactly when
  the value is not the sentinel and a release function is present; it then leaves the
  handle with the sentinel and no release function and returns true, and otherwise it
  changes nothing and returns false. On an empty handle, and on any handle after a first
  \<^verbatim>\<open>Release\<close>, it is a no-op that returns false. The destructor has the effect of
  \<^verbatim>\<open>Release\<close> and leaves the handle empty. Move-assignment from another object
  releases what this handle holds, adopts the source's value and release function and
  empties the source; from the object itself it does nothing. Over any program of
  releases, moves and destructions on a store of handles whose release functions record
  their calls, for every value \<open>v\<close> other than the sentinel the number of releases
  of \<open>v\<close> so far plus the number of handles that own \<open>v\<close> never changes, so the number
  of owners never grows, and once every handle is destroyed \<open>v\<close> has been released
  exactly once for each handle that owned it at the start.
\<close>

theorem C4_Handle:
  "Release i h w =
     (if m_handle h \<noteq> i \<and> m_releaseFn h \<noteq> None
      then (True, Handle_default i, the (m_releaseFn h) (m_handle h) w)
      else (False, h, w))
   \<and> Release i (Handle_default i) w = (False, Handle_default i, w)
   \<and> Release i (fst (snd (Release i h w))) w' = (False, fst (snd (Release i h w)), w')
   \<and> Handle_dtor i h w = (Handle_default i, snd (snd (Release i h w)))
   \<and> Handle_move_assign i a a hs w = (hs, w)
   \<and> (a \<noteq> b \<longrightarrow>
        Handle_move_assign i a b hs w =
          (hs[a := Handle_ctor (m_handle (hs ! b)) (m_releaseFn (hs ! b)), b := Handle_default i],
           snd (snd (Release i (hs ! a) w))))
   \<and> (v \<noteq> i \<and> list_all recording rs \<and> list_all (handle_op_ok (length rs)) ops \<longrightarrow>
        count_list (snd (run_handle_ops i ops (rs, log))) v
          + owners v (fst (run_handle_ops i ops (rs, log))) = count_list log v + owners v rs
        \<and> owners v (fst (run_handle_ops i ops (rs, log))) \<le> owners v rs
        \<and> count_list (snd (destroy_all i (run_handle_ops i ops (rs, log)))) v
            = count_list log v + owners v rs)"
  using Release_cases [of i h w] Release_default [of i w] Release_twice [of i h w w']
    Handle_dtor_cases [of i h w] Handle_move_assign_self [of i a hs w]
    Handle_move_assign_other [of a b i hs w] handles_released_once [of v i rs ops log]
  by blast

text \<open>The hypotheses of claim C4 hold for the two handles and their program.\<close>

theorem C4_Handle_witness:
  "(0 :: nat) \<noteq> 1 \<and> (5 :: nat) \<noteq> 0 \<and> list_all recording two_handles
   \<and> list_all (handle_op_ok (length two_handles)) handle_program
   \<and> owners 5 two_handles = 1
   \<and> owners 5 (fst (run_handle_ops 0 handle_program (two_handles, []))) = 0
   \<and> snd (run_handle_ops 0 handle_program (two_handles, [])) = [5]
   \<and> count_list (snd (destroy_all 0 (run_handle_ops 0 handle_program (two_handles, [])))) 5 = 1
   \<and> Handle_move_assign 0 0 1 two_handles []
       = ([Handle_default 0, Handle_default 0], [5])"
proof -
  have h1: "(5 :: nat) \<noteq> 0" by simp
  have h2: "list_all recording two_handles"
    by (simp add: two_handles_def recording_def Handle_ctor_def Handle_default_def)
  have h3: "list_all (handle_op_ok (length two_handles)) handle_program"
    by (simp add: two_handles_def handle_program_def)
  have h4: "(0 :: nat) \<noteq> 1" by simp
  have o: "owners 5 two_handles = 1"
    by (simp add: two_handles_def owners_def owns_def Handle_ctor_def Handle_default_def)
  have e: "run_handle_ops 0 handle_program (two_handles, [])
      = ([Handle_default 0, Handle_default 0], [5])"
    by (simp add: run_handle_ops_def handle_program_def two_handles_def Handle_move_assign_def
        Handle_assign_from_def Handle_Release_at_def Release_def Handle_Reset_def Handle_ctor_def
        Handle_default_def record_release_def)
  have o2: "owners 5 (fst (run_handle_ops 0 handle_program (two_handles, []))) = 0"
    unfolding e by (simp add: owners_def owns_def Handle_ctor_def Handle_default_def)
  note t = C4_Handle [of 0 "two_handles ! 0" "[]" "[]" 0 two_handles 1 5 two_handles
      handle_program "[]"]
  have c: "count_list (snd (destroy_all 0 (run_handle_ops 0 handle_program (two_handles, [])))) 5
      = count_list [] (5 :: nat) + owners 5 two_handles"
    using t h1 h2 h3 by blast
  have m: "Handle_move_assign 0 0 1 two_handles []
      = (two_handles[0 := Handle_ctor (m_handle (two_handles ! 1)) (m_releaseFn (two_handles ! 1)),
           1 := Handle_default 0], snd (snd (Release 0 (two_handles ! 0) [])))"
    using t h4 by blast
  have m': "Handle_move_assign 0 0 1 two_handles [] = ([Handle_default 0, Handle_default 0], [5])"
    unfolding m
    by (simp add: two_handles_def Release_def Handle_Reset_def Handle_ctor_def Handle_default_def
        record_release_def)
  show ?thesis
    using h4 h1 h2 h3 o o2 e c m' by simp
qed

end
